theory Spec2Isabelle
  imports Complex_Main "HOL-Library.Multiset"
begin

section \<open>Python values of the notebook\<close>

text \<open>
  The notebook \<^verbatim>\<open>notebook_ex_neural_network_pdb.ipynb\<close> is a sequence of Python cells.
  Exceptions are values: every raise of the source is an \<open>Inl\<close> of the model.
\<close>

datatype error = KeyError | IndexError | TypeError | ValueError | AttributeError
  | OverflowError | FloatingPointError | RuntimeWarning

subsection \<open>Floats\<close>

text \<open>
  A Python float and a numpy float64 are IEEE 754 binary64 values. \<open>FNum a\<close> is the finite
  double of value \<open>a\<close>: every operation below rounds its exact result to a double, so the
  argument of \<open>FNum\<close> is always a number that a double holds. The two zeros, which compare
  equal in Python, are one value.
\<close>

datatype pyfloat = FNum real | FPosInf | FNegInf | FNaN

fun fneg :: "pyfloat \<Rightarrow> pyfloat" where
  "fneg (FNum a) = FNum (- a)"
| "fneg FPosInf = FNegInf"
| "fneg FNegInf = FPosInf"
| "fneg FNaN = FNaN"

definition is_finite :: "pyfloat \<Rightarrow> bool" where
  "is_finite x = (case x of FNum a \<Rightarrow> True | _ \<Rightarrow> False)"

text \<open>
  The number of binary digits of a positive integer, the powers of two, and the binade of
  a positive real \<open>a\<close>: the exponent \<open>e\<close> with \<open>2 ^ e \<le> a < 2 ^ (e + 1)\<close>.
\<close>

function bit_length :: "int \<Rightarrow> int" where
  "bit_length n = (if n \<le> 0 then 0 else 1 + bit_length (n div 2))"
  by pat_completeness auto
termination
  by (relation "measure nat") auto

definition pow2 :: "int \<Rightarrow> real" where
  "pow2 k = (if 0 \<le> k then of_int (2 ^ nat k) else 1 / of_int (2 ^ nat (- k)))"

definition binade :: "real \<Rightarrow> int" where
  "binade a = (if 1 \<le> a then bit_length \<lfloor>a\<rfloor> - 1 else - bit_length (\<lceil>1 / a\<rceil> - 1))"

text \<open>
  Rounding to the nearest integer, a tie to the even one: \<open>f\<close> is the integer below and
  \<open>d\<close> the distance to it.
\<close>

definition nearest_even :: "int \<Rightarrow> real \<Rightarrow> int" where
  "nearest_even f d =
     (if d < 1 / 2 then f else if 1 / 2 < d then f + 1 else if even f then f else f + 1)"

definition round_half_even :: "real \<Rightarrow> int" where
  "round_half_even y = nearest_even \<lfloor>y\<rfloor> (y - of_int \<lfloor>y\<rfloor>)"

text \<open>
  The double nearest to a real \<open>x\<close> (round to nearest, ties to even). A double of the
  binade \<open>e\<close> is a multiple of the quantum \<open>2 ^ (e - 52)\<close>, and of \<open>2 ^ (- 1074)\<close> below the
  normal range (\<open>e < - 1022\<close>). A magnitude that rounds to \<open>2 ^ 1024\<close> or more is beyond
  the largest double and gives an infinity. \<open>neg\<close> is the sign, \<open>a\<close> the magnitude, \<open>q\<close> the
  quantum and \<open>m\<close> the number of quanta.
\<close>

definition inf_double :: "bool \<Rightarrow> pyfloat" where
  "inf_double neg = (if neg then FNegInf else FPosInf)"

definition pack_double :: "bool \<Rightarrow> int \<Rightarrow> real \<Rightarrow> int \<Rightarrow> pyfloat" where
  "pack_double neg e q m =
     (if e = 1023 \<and> 2 ^ 53 \<le> m then inf_double neg
      else FNum (if neg then - (of_int m * q) else of_int m * q))"

definition round_quantum :: "bool \<Rightarrow> int \<Rightarrow> real \<Rightarrow> real \<Rightarrow> pyfloat" where
  "round_quantum neg e q a = pack_double neg e q (round_half_even (a / q))"

definition round_binade :: "bool \<Rightarrow> int \<Rightarrow> real \<Rightarrow> pyfloat" where
  "round_binade neg e a =
     (if 1023 < e then inf_double neg else round_quantum neg e (pow2 (max e (- 1022) - 52)) a)"

definition round_double :: "real \<Rightarrow> pyfloat" where
  "round_double x = (if x = 0 then FNum 0 else round_binade (x < 0) (binade \<bar>x\<bar>) \<bar>x\<bar>)"

text \<open>The sum of two doubles, rounded.\<close>

fun fadd :: "pyfloat \<Rightarrow> pyfloat \<Rightarrow> pyfloat" where
  "fadd FNaN y = FNaN"
| "fadd x FNaN = FNaN"
| "fadd (FNum a) (FNum b) = round_double (a + b)"
| "fadd FPosInf FNegInf = FNaN"
| "fadd FNegInf FPosInf = FNaN"
| "fadd FPosInf y = FPosInf"
| "fadd x FPosInf = FPosInf"
| "fadd FNegInf y = FNegInf"
| "fadd x FNegInf = FNegInf"

text \<open>
  The quotient of two doubles, rounded, for a divisor that is not negative: the divisor of
  the notebook is a length. A zero divisor does not raise for numpy scalars: the quotient
  is nan or an infinity.
\<close>

fun fdiv :: "pyfloat \<Rightarrow> pyfloat \<Rightarrow> pyfloat" where
  "fdiv FNaN y = FNaN"
| "fdiv x FNaN = FNaN"
| "fdiv (FNum a) (FNum b) =
     (if b = 0 then (if a = 0 then FNaN else if 0 < a then FPosInf else FNegInf)
      else round_double (a / b))"
| "fdiv (FNum a) y = FNum 0"
| "fdiv x (FNum b) = x"
| "fdiv x y = FNaN"

text \<open>\<^verbatim>\<open>float(n)\<close> for a length \<open>n\<close>, and a float64 scalar divided by a length.\<close>

definition len_to_float :: "nat \<Rightarrow> pyfloat" where
  "len_to_float n = round_double (real n)"

definition fdiv_len :: "pyfloat \<Rightarrow> nat \<Rightarrow> pyfloat" where
  "fdiv_len x n = fdiv x (len_to_float n)"

text \<open>
  \<^verbatim>\<open>float(n)\<close> for a Python int \<open>n\<close>, which has no bound: OverflowError when the nearest
  double is an infinity.
\<close>

definition int_to_float :: "int \<Rightarrow> error + pyfloat" where
  "int_to_float n = (case round_double (of_int n) of FNum a \<Rightarrow> Inr (FNum a) | _ \<Rightarrow> Inl OverflowError)"

subsection \<open>Floating-point exceptions\<close>

text \<open>
  A numpy operation collects the IEEE exceptions that its arithmetic signals and then
  handles them as the error state of numpy says (\<^verbatim>\<open>np.seterr\<close>): each kind of exception
  is ignored, warned about, raised as FloatingPointError or printed. (The modes \<^verbatim>\<open>call\<close>
  and \<^verbatim>\<open>log\<close>, which run a function of the user, are not modelled.) A warning is a
  RuntimeWarning, which the warnings filter of Python may turn into an exception. This
  state is global: the notebook never sets it, so its cells run in the default state.
  Whether a result below the normal range is tiny before or after rounding is a property
  of the processor.
\<close>

datatype fp_flag = DivideByZero | Overflow | Underflow | Invalid

datatype fp_mode = Ignore | Warn | Raise | Print

record fp_env =
  err_divide :: fp_mode
  err_over :: fp_mode
  err_under :: fp_mode
  err_invalid :: fp_mode
  warnings_error :: bool
  tiny_after_rounding :: bool

definition default_fp_env :: fp_env where
  "default_fp_env = \<lparr>err_divide = Warn, err_over = Warn, err_under = Ignore, err_invalid = Warn,
     warnings_error = False, tiny_after_rounding = True\<rparr>"

definition mode_of :: "fp_env \<Rightarrow> fp_flag \<Rightarrow> fp_mode" where
  "mode_of env f = (case f of
       DivideByZero \<Rightarrow> err_divide env
     | Overflow \<Rightarrow> err_over env
     | Underflow \<Rightarrow> err_under env
     | Invalid \<Rightarrow> err_invalid env)"

definition error_handler :: "fp_env \<Rightarrow> fp_mode \<Rightarrow> error option" where
  "error_handler env m = (case m of
       Ignore \<Rightarrow> None
     | Warn \<Rightarrow> if warnings_error env then Some RuntimeWarning else None
     | Raise \<Rightarrow> Some FloatingPointError
     | Print \<Rightarrow> None)"

text \<open>
  The exceptions signalled, \<open>raised\<close>, are handled in a fixed order; the first handler
  that raises ends the operation.
\<close>

fun handle_fp_errors :: "fp_env \<Rightarrow> fp_flag list \<Rightarrow> fp_flag list \<Rightarrow> error option" where
  "handle_fp_errors env raised [] = None"
| "handle_fp_errors env raised (f # fs) =
     (if f \<in> set raised then
        (case error_handler env (mode_of env f) of
           Some e \<Rightarrow> Some e
         | None \<Rightarrow> handle_fp_errors env raised fs)
      else handle_fp_errors env raised fs)"

definition give_fp_errors :: "fp_env \<Rightarrow> fp_flag list \<Rightarrow> error option" where
  "give_fp_errors env raised =
     handle_fp_errors env raised [DivideByZero, Overflow, Underflow, Invalid]"

text \<open>A value with the exceptions signalled on the way to it, and the end of an operation.\<close>

type_synonym flagged = "pyfloat \<times> fp_flag list"

definition check_fp :: "fp_env \<Rightarrow> flagged \<Rightarrow> error + pyfloat" where
  "check_fp env r = (case give_fp_errors env (snd r) of Some e \<Rightarrow> Inl e | None \<Rightarrow> Inr (fst r))"

text \<open>
  An addition with the result \<open>r\<close> signals overflow when two finite numbers give an
  infinity, and invalid when two infinities give nan. It never signals underflow: a sum
  of two doubles that is below the normal range is exact.
\<close>

definition add_flags :: "pyfloat \<Rightarrow> pyfloat \<Rightarrow> pyfloat \<Rightarrow> fp_flag list" where
  "add_flags x y r =
     (if is_finite x \<and> is_finite y \<and> \<not> is_finite r then [Overflow]
      else if r = FNaN \<and> x \<noteq> FNaN \<and> y \<noteq> FNaN then [Invalid] else [])"

definition flag_sum :: "pyfloat \<Rightarrow> pyfloat \<Rightarrow> fp_flag list \<Rightarrow> pyfloat \<Rightarrow> flagged" where
  "flag_sum x y fl r = (r, fl @ add_flags x y r)"

definition fadd_flagged :: "flagged \<Rightarrow> flagged \<Rightarrow> flagged" where
  "fadd_flagged p q = flag_sum (fst p) (fst q) (snd p @ snd q) (fadd (fst p) (fst q))"

text \<open>
  A division signals invalid for \<open>0 / 0\<close> and for two infinities, division by zero for a
  finite dividend other than 0, overflow when the rounded quotient of two finite numbers
  is an infinity, and underflow when the quotient is tiny and its rounding is not exact.
  \<open>tiny after a\<close>, for a magnitude \<open>a\<close>: \<open>a\<close> is below \<open>2 ^ (- 1022)\<close>, and with \<open>after\<close> so
  is \<open>a\<close> rounded to 53 digits with no bound on the exponent.
\<close>

definition tiny :: "bool \<Rightarrow> real \<Rightarrow> bool" where
  "tiny after a =
     (if binade a < - 1023 then True
      else if binade a = - 1023 then \<not> after \<or> round_half_even (a / pow2 (- 1075)) < 2 ^ 53
      else False)"

definition round_flags :: "bool \<Rightarrow> real \<Rightarrow> fp_flag list" where
  "round_flags after q =
     (if q = 0 then []
      else if tiny after \<bar>q\<bar> then (if round_double q = FNum q then [] else [Underflow])
      else if is_finite (round_double q) then [] else [Overflow])"

fun fdiv_flags :: "bool \<Rightarrow> pyfloat \<Rightarrow> pyfloat \<Rightarrow> fp_flag list" where
  "fdiv_flags after FNaN y = []"
| "fdiv_flags after x FNaN = []"
| "fdiv_flags after (FNum a) (FNum b) =
     (if b = 0 then (if a = 0 then [Invalid] else [DivideByZero]) else round_flags after (a / b))"
| "fdiv_flags after (FNum a) y = []"
| "fdiv_flags after x (FNum b) = []"
| "fdiv_flags after x y = [Invalid]"

text \<open>
  The division of a float64 scalar by a Python int that is a length, as numpy does it:
  the quotient, unless the handling of the exceptions raises.
\<close>

definition scalar_divide :: "fp_env \<Rightarrow> pyfloat \<Rightarrow> nat \<Rightarrow> error + pyfloat" where
  "scalar_divide env x n =
     check_fp env (fdiv_len x n, fdiv_flags (tiny_after_rounding env) x (len_to_float n))"

subsection \<open>The sum of an array\<close>

text \<open>
  \<^verbatim>\<open>np.add.reduce\<close> on a contiguous float64 array adds its elements by pairwise
  summation. Fewer than 8 elements are added in order to 0. A block of up to 128 elements
  is added in 8 interleaved accumulators, which are then added as a tree, and the
  elements after the last multiple of 8 are added in order. A longer array is split in
  two, the first part of a length that is a multiple of 8. The sum of the array is added
  to the initial value 0 of the reduction. The algorithm is given for any addition \<open>add\<close>,
  to run it on floats and on floats with their exceptions.
\<close>

definition accumulator :: "('a \<Rightarrow> 'a \<Rightarrow> 'a) \<Rightarrow> 'a list \<Rightarrow> nat \<Rightarrow> 'a" where
  "accumulator add xs j = foldl add (xs ! j) (map (\<lambda>k. xs ! (8 * k + j)) [1..<length xs div 8])"

definition block_sum :: "('a \<Rightarrow> 'a \<Rightarrow> 'a) \<Rightarrow> 'a list \<Rightarrow> 'a" where
  "block_sum add xs =
     foldl add
       (add (add (add (accumulator add xs 0) (accumulator add xs 1))
                 (add (accumulator add xs 2) (accumulator add xs 3)))
            (add (add (accumulator add xs 4) (accumulator add xs 5))
                 (add (accumulator add xs 6) (accumulator add xs 7))))
       (drop (8 * (length xs div 8)) xs)"

definition half_block :: "nat \<Rightarrow> nat" where
  "half_block n = n div 2 - (n div 2) mod 8"

function pairwise_sum :: "('a \<Rightarrow> 'a \<Rightarrow> 'a) \<Rightarrow> 'a \<Rightarrow> 'a list \<Rightarrow> 'a" where
  "pairwise_sum add zero xs =
     (if length xs < 8 then foldl add zero xs
      else if length xs \<le> 128 then block_sum add xs
      else add (pairwise_sum add zero (take (half_block (length xs)) xs))
               (pairwise_sum add zero (drop (half_block (length xs)) xs)))"
  by pat_completeness auto
termination
  by (relation "measure (\<lambda>(add, zero, xs). length xs)") (auto simp: half_block_def)

definition add_reduce :: "('a \<Rightarrow> 'a \<Rightarrow> 'a) \<Rightarrow> 'a \<Rightarrow> 'a list \<Rightarrow> 'a" where
  "add_reduce add zero xs = add zero (pairwise_sum add zero xs)"

subsection \<open>Strings\<close>

text \<open>
  A Python \<^verbatim>\<open>str\<close> is a sequence of code points. A \<open>char\<close> of the model is the code
  point of the same number, so the strings of the model are the Python strings over
  U+0000 .. U+00FF, and \<open>length\<close> is Python's \<^verbatim>\<open>len\<close>.
\<close>

definition code_point :: "char \<Rightarrow> nat" where
  "code_point c = of_char c"

text \<open>\<^verbatim>\<open>str.isspace\<close> on one code point below 256.\<close>

definition is_space :: "char \<Rightarrow> bool" where
  "is_space c = (let n = code_point c in
     (9 \<le> n \<and> n \<le> 13) \<or> (28 \<le> n \<and> n \<le> 32) \<or> n = 133 \<or> n = 160)"

text \<open>\<^verbatim>\<open>str.isalpha\<close> on one code point below 256 (general category L).\<close>

definition is_alpha_char :: "char \<Rightarrow> bool" where
  "is_alpha_char c = (let n = code_point c in
     (65 \<le> n \<and> n \<le> 90) \<or> (97 \<le> n \<and> n \<le> 122) \<or> n = 170 \<or> n = 181 \<or> n = 186 \<or>
     (192 \<le> n \<and> n \<le> 214) \<or> (216 \<le> n \<and> n \<le> 246) \<or> (248 \<le> n \<and> n \<le> 255))"

definition isalpha :: "string \<Rightarrow> bool" where
  "isalpha s = (s \<noteq> [] \<and> list_all is_alpha_char s)"

text \<open>
  \<^verbatim>\<open>s.split()\<close> with no separator: runs of whitespace separate the tokens, and leading
  and trailing whitespace gives no empty token. \<open>cur\<close> is the token being read.
\<close>

fun split_from :: "string \<Rightarrow> string \<Rightarrow> string list" where
  "split_from cur [] = (if cur = [] then [] else [cur])"
| "split_from cur (c # cs) =
     (if is_space c then (if cur = [] then split_from [] cs else cur # split_from [] cs)
      else split_from (cur @ [c]) cs)"

definition split :: "string \<Rightarrow> string list" where
  "split s = split_from [] s"

text \<open>\<^verbatim>\<open>ord(t)\<close>: a string of length one gives its code point, any other raises TypeError.\<close>

definition py_ord :: "string \<Rightarrow> error + nat" where
  "py_ord t = (case t of [c] \<Rightarrow> Inr (code_point c) | _ \<Rightarrow> Inl TypeError)"

subsection \<open>The builtin float on a string\<close>

definition is_digit :: "char \<Rightarrow> bool" where
  "is_digit c = (let n = code_point c in 48 \<le> n \<and> n \<le> 57)"

definition digit_val :: "char \<Rightarrow> nat" where
  "digit_val c = code_point c - 48"

definition digits_val :: "string \<Rightarrow> nat" where
  "digits_val ds = foldl (\<lambda>a c. 10 * a + digit_val c) 0 ds"

text \<open>
  An underscore is allowed only between two digits. \<open>prev\<close> is the character before,
  the NUL character at the start.
\<close>

fun underscores_ok :: "char \<Rightarrow> string \<Rightarrow> bool" where
  "underscores_ok prev [] = (prev \<noteq> CHR ''_'')"
| "underscores_ok prev (c # cs) =
     (if c = CHR ''_'' then is_digit prev \<and> underscores_ok c cs
      else (prev = CHR ''_'' \<longrightarrow> is_digit c) \<and> underscores_ok c cs)"

text \<open>
  The whitespace that \<^verbatim>\<open>float\<close> strips at both ends: the ASCII whitespace of C, and the
  Unicode whitespace above U+007F (which it first rewrites to a blank).
\<close>

definition is_float_space :: "char \<Rightarrow> bool" where
  "is_float_space c = (let n = code_point c in
     (9 \<le> n \<and> n \<le> 13) \<or> n = 32 \<or> n = 133 \<or> n = 160)"

definition strip_float :: "string \<Rightarrow> string" where
  "strip_float s = rev (dropWhile is_float_space (rev (dropWhile is_float_space s)))"

definition parse_sign :: "string \<Rightarrow> bool \<times> string" where
  "parse_sign s = (case s of
       [] \<Rightarrow> (False, [])
     | c # r \<Rightarrow> if c = CHR ''-'' then (True, r) else if c = CHR ''+'' then (False, r)
                else (False, s))"

definition lower_char :: "char \<Rightarrow> char" where
  "lower_char c = (let n = code_point c in if 65 \<le> n \<and> n \<le> 90 then char_of (n + 32) else c)"

text \<open>\<open>inf\<close>, \<open>infinity\<close> and \<open>nan\<close>, in any mix of cases.\<close>

definition parse_inf_or_nan :: "string \<Rightarrow> pyfloat option" where
  "parse_inf_or_nan r = (let l = map lower_char r in
     if l = ''inf'' \<or> l = ''infinity'' then Some FPosInf
     else if l = ''nan'' then Some FNaN else None)"

text \<open>
  An unsigned decimal number: digits, an optional point and digits (one of the two digit
  runs may be empty, not both), an optional exponent with at least one digit.
\<close>

definition parse_number :: "string \<Rightarrow> real option" where
  "parse_number r =
     (let ip = takeWhile is_digit r; r1 = dropWhile is_digit r;
          fp = (case r1 of [] \<Rightarrow> [] | c # t \<Rightarrow> if c = CHR ''.'' then takeWhile is_digit t else []);
          r2 = (case r1 of [] \<Rightarrow> [] | c # t \<Rightarrow> if c = CHR ''.'' then dropWhile is_digit t else r1)
      in if ip = [] \<and> fp = [] then None
         else let m = real (digits_val (ip @ fp)) / 10 ^ length fp in
           (case r2 of
              [] \<Rightarrow> Some m
            | c # t \<Rightarrow>
                if c = CHR ''e'' \<or> c = CHR ''E'' then
                  (let (eneg, ed) = parse_sign t in
                   if ed \<noteq> [] \<and> list_all is_digit ed then
                     Some (if eneg then m / 10 ^ digits_val ed else m * 10 ^ digits_val ed)
                   else None)
                else None))"

text \<open>
  \<^verbatim>\<open>float(s)\<close> for a string \<open>s\<close>: the double nearest to the number that \<open>s\<close> denotes, an
  infinity when it is beyond the doubles; ValueError when \<open>s\<close> is not a float literal.
\<close>

definition py_float :: "string \<Rightarrow> error + pyfloat" where
  "py_float s =
     (if \<not> underscores_ok (CHR 0x00) s then Inl ValueError
      else let (neg, r) = parse_sign (strip_float (filter (\<lambda>c. c \<noteq> CHR ''_'') s)) in
        (case parse_inf_or_nan r of
           Some v \<Rightarrow> Inr (if neg then fneg v else v)
         | None \<Rightarrow>
            (case parse_number r of
               None \<Rightarrow> Inl ValueError
             | Some m \<Rightarrow> Inr (round_double (if neg then - m else m)))))"

section \<open>The feature hash of a space-group label\<close>

text \<open>
  \<^verbatim>\<open>
  def char_to_float(s):
      parts = s.split()
      for i in range(len(parts)):
          if parts[i].isalpha():
              parts[i] = float(ord(parts[i]))/100
          else:
              parts[i] = float(parts[i])
      return np.sum(parts)/len(parts)
  \<close>
  The list \<open>parts\<close> is updated in place and holds strings and floats while the loop runs.
\<close>

datatype pyval = PStr string | PFloat pyfloat

text \<open>
  The value that one round of the loop stores in \<open>parts[i]\<close>, for the token \<open>t\<close>. The
  code point is below 256, so \<^verbatim>\<open>float\<close> of it is exact, and the division rounds.
\<close>

definition convert_part :: "string \<Rightarrow> error + pyfloat" where
  "convert_part t =
     (if isalpha t then
        (case py_ord t of Inl e \<Rightarrow> Inl e | Inr c \<Rightarrow> Inr (round_double (real c / 100)))
      else py_float t)"

function ctf_loop :: "nat \<Rightarrow> pyval list \<Rightarrow> error + pyval list" where
  "ctf_loop i parts =
     (if i < length parts then
        (case parts ! i of
           PStr t \<Rightarrow>
             (case convert_part t of
                Inl e \<Rightarrow> Inl e
              | Inr f \<Rightarrow> ctf_loop (i + 1) (parts[i := PFloat f]))
         | PFloat f \<Rightarrow> Inl AttributeError)
      else Inr parts)"
  by pat_completeness auto
termination
  by (relation "measure (\<lambda>(i, parts). length parts - i)") auto

text \<open>
  \<^verbatim>\<open>np.sum\<close> of a list: numpy makes a float64 array of a list of floats and reduces it
  by addition; the sum of no element is 0.0. A list with a string has no sum. The
  exceptions that the additions signal are handled when the reduction ends.
\<close>

fun floats_of :: "pyval list \<Rightarrow> pyfloat list option" where
  "floats_of [] = Some []"
| "floats_of (PFloat f # ps) = (case floats_of ps of None \<Rightarrow> None | Some fs \<Rightarrow> Some (f # fs))"
| "floats_of (PStr t # ps) = None"

definition np_sum :: "fp_env \<Rightarrow> pyval list \<Rightarrow> error + pyfloat" where
  "np_sum env parts = (case floats_of parts of
       None \<Rightarrow> Inl TypeError
     | Some fs \<Rightarrow> check_fp env (add_reduce fadd_flagged (FNum 0, []) (map (\<lambda>f. (f, [])) fs)))"

text \<open>
  The function in the floating-point environment \<open>env\<close>, which \<^verbatim>\<open>np.sum\<close> and the
  division of the numpy scalar read; and the function as the notebook runs it, in the
  default environment.
\<close>

definition char_to_float_in :: "fp_env \<Rightarrow> string \<Rightarrow> error + pyfloat" where
  "char_to_float_in env s =
     (case ctf_loop 0 (map PStr (split s)) of
        Inl e \<Rightarrow> Inl e
      | Inr parts \<Rightarrow>
          (case np_sum env parts of
             Inl e \<Rightarrow> Inl e
           | Inr t \<Rightarrow> scalar_divide env t (length parts)))"

definition char_to_float :: "string \<Rightarrow> error + pyfloat" where
  "char_to_float s = char_to_float_in default_fp_env s"

section \<open>Parsed JSON\<close>

text \<open>
  A value that \<^verbatim>\<open>json.loads\<close> returns. A JSON object is a Python dict, here the
  association list of its items, read with \<open>map_of\<close>. A number without fraction and
  exponent is a Python int, which has no bound; any other number is a float.
\<close>

datatype json = JNull | JBool bool | JInt int | JFloat pyfloat | JStr string | JArr "json list"
  | JObj "(string \<times> json) list"

text \<open>Sequencing: the first exception ends the evaluation.\<close>

definition bindE :: "error + 'a \<Rightarrow> ('a \<Rightarrow> error + 'b) \<Rightarrow> error + 'b" where
  "bindE m f = (case m of Inl e \<Rightarrow> Inl e | Inr x \<Rightarrow> f x)"

text \<open>\<^verbatim>\<open>len(v)\<close>: defined on strings, lists and dicts.\<close>

definition py_len :: "json \<Rightarrow> error + nat" where
  "py_len v = (case v of
       JStr s \<Rightarrow> Inr (length s)
     | JArr xs \<Rightarrow> Inr (length xs)
     | JObj kvs \<Rightarrow> Inr (length (remdups (map fst kvs)))
     | _ \<Rightarrow> Inl TypeError)"

text \<open>\<^verbatim>\<open>v[k]\<close> for a string \<open>k\<close>: KeyError on a dict without the key, TypeError elsewhere.\<close>

definition getitem_key :: "json \<Rightarrow> string \<Rightarrow> error + json" where
  "getitem_key v k = (case v of
       JObj kvs \<Rightarrow> (case map_of kvs k of None \<Rightarrow> Inl KeyError | Some x \<Rightarrow> Inr x)
     | _ \<Rightarrow> Inl TypeError)"

text \<open>
  \<^verbatim>\<open>v[i]\<close> for an integer \<open>i \<ge> 0\<close>. The keys of a parsed JSON object are strings, so
  an integer is never a key of it.
\<close>

definition getitem_index :: "json \<Rightarrow> nat \<Rightarrow> error + json" where
  "getitem_index v i = (case v of
       JArr xs \<Rightarrow> if i < length xs then Inr (xs ! i) else Inl IndexError
     | JStr s \<Rightarrow> if i < length s then Inr (JStr [s ! i]) else Inl IndexError
     | JObj kvs \<Rightarrow> Inl KeyError
     | _ \<Rightarrow> Inl TypeError)"

text \<open>
  \<^verbatim>\<open>k in v\<close> for a string \<open>k\<close>: a key of a dict, an element of a list, a substring of
  a string; TypeError on a value that is not a container.
\<close>

primrec is_substring :: "string \<Rightarrow> string \<Rightarrow> bool" where
  "is_substring k [] = (k = [])"
| "is_substring k (c # cs) = (take (length k) (c # cs) = k \<or> is_substring k cs)"

definition contains_key :: "string \<Rightarrow> json \<Rightarrow> error + bool" where
  "contains_key k v = (case v of
       JObj kvs \<Rightarrow> Inr (map_of kvs k \<noteq> None)
     | JArr xs \<Rightarrow> Inr (JStr k \<in> set xs)
     | JStr s \<Rightarrow> Inr (is_substring k s)
     | _ \<Rightarrow> Inl TypeError)"

text \<open>
  The float that numpy stores for \<^verbatim>\<open>arr[i, k] = v\<close> in a float64 array: an int is
  converted (OverflowError when it is too large for a double), \<^verbatim>\<open>None\<close> becomes nan, a
  string goes through \<^verbatim>\<open>float\<close>, a sequence or a dict raises.
\<close>

fun np_item :: "json \<Rightarrow> error + pyfloat" where
  "np_item (JInt n) = int_to_float n"
| "np_item (JFloat x) = Inr x"
| "np_item (JBool b) = Inr (FNum (if b then 1 else 0))"
| "np_item JNull = Inr FNaN"
| "np_item (JStr s) = py_float s"
| "np_item (JArr xs) = Inl ValueError"
| "np_item (JObj kvs) = Inl TypeError"

text \<open>
  The float that numpy stores for \<^verbatim>\<open>arr[i] = v\<close> in a row of one column: the
  value is broadcast to the row, so a list of one scalar stands for the scalar; a longer
  or empty list does not fit the row, and a nested list is deeper than the row (numpy
  1.20 and later).
\<close>

fun np_row1 :: "json \<Rightarrow> error + pyfloat" where
  "np_row1 (JArr [x]) = np_item x"
| "np_row1 v = np_item v"

text \<open>
  The builtin \<^verbatim>\<open>float(v)\<close> on a parsed JSON value: OverflowError on an int that is too
  large for a double.
\<close>

definition float_of_json :: "json \<Rightarrow> error + pyfloat" where
  "float_of_json v = (case v of
       JInt n \<Rightarrow> int_to_float n
     | JFloat x \<Rightarrow> Inr x
     | JBool b \<Rightarrow> Inr (FNum (if b then 1 else 0))
     | JStr s \<Rightarrow> py_float s
     | _ \<Rightarrow> Inl TypeError)"

text \<open>\<^verbatim>\<open>char_to_float(v)\<close>: only a string has the method \<^verbatim>\<open>split\<close>.\<close>

definition char_to_float_json :: "json \<Rightarrow> error + pyfloat" where
  "char_to_float_json v = (case v of JStr s \<Rightarrow> char_to_float s | _ \<Rightarrow> Inl AttributeError)"

section \<open>Loading the dataset\<close>

text \<open>
  \<^verbatim>\<open>
  jsons = []
  with gzip.open('../../../supplemental_material/pdb/dataset_6000.gz', 'r') as file:
      for line in file:
          jsons.append(json.loads(line))
  data = jsons[0]
  \<close>
  \<open>content\<close> is the decompressed content of the file, a sequence of bytes. Iterating a
  binary file gives its lines, each with its newline byte (0x0A) when it has one.
  \<^verbatim>\<open>json.loads\<close> is a parameter of the model, \<open>loads\<close>.
\<close>

fun lines_from :: "string \<Rightarrow> string \<Rightarrow> string list" where
  "lines_from cur [] = (if cur = [] then [] else [cur])"
| "lines_from cur (c # cs) =
     (if c = CHR 0x0A then (cur @ [c]) # lines_from [] cs else lines_from (cur @ [c]) cs)"

definition file_lines :: "string \<Rightarrow> string list" where
  "file_lines content = lines_from [] content"

fun load_lines :: "(string \<Rightarrow> error + json) \<Rightarrow> string list \<Rightarrow> json list \<Rightarrow> error + json list" where
  "load_lines loads [] jsons = Inr jsons"
| "load_lines loads (line # rest) jsons =
     (case loads line of Inl e \<Rightarrow> Inl e | Inr j \<Rightarrow> load_lines loads rest (jsons @ [j]))"

definition load_jsons :: "(string \<Rightarrow> error + json) \<Rightarrow> string \<Rightarrow> error + json list" where
  "load_jsons loads content = load_lines loads (file_lines content) []"

text \<open>\<^verbatim>\<open>data = jsons[0]\<close>: IndexError on the empty list.\<close>

definition first_json :: "json list \<Rightarrow> error + json" where
  "first_json jsons = (case jsons of [] \<Rightarrow> Inl IndexError | j # rest \<Rightarrow> Inr j)"

definition load_data :: "(string \<Rightarrow> error + json) \<Rightarrow> string \<Rightarrow> error + json" where
  "load_data loads content = bindE (load_jsons loads content) first_json"

section \<open>Feature extraction\<close>

subsection \<open>The arrays of the two problems\<close>

text \<open>
  The variables that an extraction loop updates: the two float64 arrays, a list of rows
  each, and the list of the indices of the entries kept.
\<close>

record extraction =
  all_inputs :: "pyfloat list list"
  all_targets :: "pyfloat list list"
  indices :: "nat list"

text \<open>
  \<^verbatim>\<open>np.zeros((n, m))\<close>; row \<open>i\<close> filled with \<open>x\<close>, item \<open>k\<close> of row \<open>i\<close> set to \<open>x\<close>, and the
  rows of the indices \<open>idx\<close>, for indices in range.
\<close>

definition zeros :: "nat \<Rightarrow> nat \<Rightarrow> pyfloat list list" where
  "zeros n m = replicate n (replicate m (FNum 0))"

definition set_row :: "nat \<Rightarrow> pyfloat \<Rightarrow> pyfloat list list \<Rightarrow> pyfloat list list" where
  "set_row i x arr = arr[i := map (\<lambda>_. x) (arr ! i)]"

definition set_item :: "nat \<Rightarrow> nat \<Rightarrow> pyfloat \<Rightarrow> pyfloat list list \<Rightarrow> pyfloat list list" where
  "set_item i k x arr = arr[i := (arr ! i)[k := x]]"

definition take_rows :: "pyfloat list list \<Rightarrow> nat list \<Rightarrow> pyfloat list list" where
  "take_rows arr idx = map (\<lambda>j. arr ! j) idx"

text \<open>
  The statements \<^verbatim>\<open>arr[i] = x\<close> and \<^verbatim>\<open>arr[i, k] = x\<close> and the expression
  \<^verbatim>\<open>arr[idx]\<close>: an index out of range raises IndexError.
\<close>

definition assign_row :: "nat \<Rightarrow> pyfloat \<Rightarrow> pyfloat list list \<Rightarrow> error + pyfloat list list" where
  "assign_row i x arr = (if i < length arr then Inr (set_row i x arr) else Inl IndexError)"

definition assign_item ::
  "nat \<Rightarrow> nat \<Rightarrow> pyfloat \<Rightarrow> pyfloat list list \<Rightarrow> error + pyfloat list list" where
  "assign_item i k x arr =
     (if i < length arr \<and> k < length (arr ! i) then Inr (set_item i k x arr)
      else Inl IndexError)"

definition select_rows :: "pyfloat list list \<Rightarrow> nat list \<Rightarrow> error + pyfloat list list" where
  "select_rows arr idx =
     (if list_all (\<lambda>j. j < length arr) idx then Inr (take_rows arr idx) else Inl IndexError)"

text \<open>\<^verbatim>\<open>for i in ...\<close>: the body runs on each index in turn; an exception ends the loop.\<close>

fun for_each :: "(nat \<Rightarrow> 's \<Rightarrow> error + 's) \<Rightarrow> nat list \<Rightarrow> 's \<Rightarrow> error + 's" where
  "for_each body [] st = Inr st"
| "for_each body (i # is) st = (case body i st of Inl e \<Rightarrow> Inl e | Inr st' \<Rightarrow> for_each body is st')"

subsection \<open>Problem 1\<close>

text \<open>
  \<^verbatim>\<open>
  all_inputs = np.zeros((len(data), 1))
  all_targets = np.zeros((len(data), 1))
  indices = []
  for i in range(len(data)):
      entry = data[i]['entry']
      if 'exptl_crystal' in entry and 'density_matthews' in entry['exptl_crystal'][0]
            and 'density_percent_sol' in entry['exptl_crystal'][0]:
          all_inputs[i] = entry['exptl_crystal'][0]['density_matthews']
          all_targets[i] = entry['exptl_crystal'][0]['density_percent_sol']
          indices.append(i)
  all_inputs = all_inputs[indices]
  all_targets = all_targets[indices]
  \<close>
  \<open>first_crystal entry\<close> is \<^verbatim>\<open>entry['exptl_crystal'][0]\<close>; \<^verbatim>\<open>and\<close> evaluates its right
  operand only when the left one is true.
\<close>

definition first_crystal :: "json \<Rightarrow> error + json" where
  "first_crystal entry = bindE (getitem_key entry ''exptl_crystal'') (\<lambda>xc. getitem_index xc 0)"

definition problem1_cond :: "json \<Rightarrow> error + bool" where
  "problem1_cond entry =
     bindE (contains_key ''exptl_crystal'' entry) (\<lambda>c1.
       if \<not> c1 then Inr False
       else bindE (first_crystal entry) (\<lambda>x.
         bindE (contains_key ''density_matthews'' x) (\<lambda>c2.
           if \<not> c2 then Inr False
           else bindE (first_crystal entry) (\<lambda>y. contains_key ''density_percent_sol'' y))))"

definition problem1_body :: "json \<Rightarrow> nat \<Rightarrow> extraction \<Rightarrow> error + extraction" where
  "problem1_body data i st =
     bindE (getitem_index data i) (\<lambda>d.
     bindE (getitem_key d ''entry'') (\<lambda>entry.
     bindE (problem1_cond entry) (\<lambda>c.
       if c then
         bindE (first_crystal entry) (\<lambda>x.
         bindE (getitem_key x ''density_matthews'') (\<lambda>dm.
         bindE (np_row1 dm) (\<lambda>a.
         bindE (assign_row i a (all_inputs st)) (\<lambda>inputs.
         bindE (first_crystal entry) (\<lambda>y.
         bindE (getitem_key y ''density_percent_sol'') (\<lambda>ds.
         bindE (np_row1 ds) (\<lambda>b.
         bindE (assign_row i b (all_targets st)) (\<lambda>targets.
           Inr (st\<lparr>all_inputs := inputs, all_targets := targets,
                    indices := indices st @ [i]\<rparr>)))))))))
       else Inr st)))"

definition problem1 :: "json \<Rightarrow> error + extraction" where
  "problem1 data =
     bindE (py_len data) (\<lambda>n.
     bindE (for_each (problem1_body data) [0..<n]
              \<lparr>all_inputs = zeros n 1, all_targets = zeros n 1, indices = []\<rparr>) (\<lambda>st.
     bindE (select_rows (all_inputs st) (indices st)) (\<lambda>inputs.
     bindE (select_rows (all_targets st) (indices st)) (\<lambda>targets.
       Inr \<lparr>all_inputs = inputs, all_targets = targets, indices = indices st\<rparr>))))"

subsection \<open>Problem 2\<close>

text \<open>
  \<^verbatim>\<open>
  all_inputs = np.zeros((len(data), 9))
  all_targets = np.zeros((len(data), 1))
  indices = []
  for i in range(len(data)):
      entry = data[i]['entry']
      if 'cell' in entry and 'density_matthews' in entry['exptl_crystal'][0]:
          all_inputs[i, 0] = entry['cell']['angle_alpha']
          all_inputs[i, 1] = entry['cell']['angle_beta']
          all_inputs[i, 2] = entry['cell']['angle_gamma']
          all_inputs[i, 3] = entry['cell']['length_a']
          all_inputs[i, 4] = entry['cell']['length_b']
          all_inputs[i, 5] = entry['cell']['length_c']
          all_inputs[i, 6] = char_to_float(entry['symmetry']['space_group_name_hm'])
          all_inputs[i, 7] = float(entry['symmetry']['int_tables_number'])
          all_inputs[i, 8] = len(entry['pdbx_seq_one_letter_code'])*110
          all_targets[i] = entry['exptl_crystal'][0]['density_matthews']
          indices.append(i)
  all_inputs = all_inputs[indices]
  all_targets = all_targets[indices]
  \<close>
  \<open>store_item i k v\<close> is the statement \<^verbatim>\<open>all_inputs[i, k] = v\<close>, where evaluating \<open>v\<close> may
  raise.
\<close>

definition problem2_cond :: "json \<Rightarrow> error + bool" where
  "problem2_cond entry =
     bindE (contains_key ''cell'' entry) (\<lambda>c1.
       if \<not> c1 then Inr False
       else bindE (first_crystal entry) (\<lambda>x. contains_key ''density_matthews'' x))"

definition store_item :: "nat \<Rightarrow> nat \<Rightarrow> error + pyfloat \<Rightarrow> extraction \<Rightarrow> error + extraction" where
  "store_item i k v st =
     bindE v (\<lambda>x.
     bindE (assign_item i k x (all_inputs st)) (\<lambda>inputs. Inr (st\<lparr>all_inputs := inputs\<rparr>)))"

definition cell_field :: "json \<Rightarrow> string \<Rightarrow> error + pyfloat" where
  "cell_field entry k =
     bindE (getitem_key entry ''cell'') (\<lambda>c. bindE (getitem_key c k) np_item)"

definition symmetry_field :: "json \<Rightarrow> string \<Rightarrow> error + json" where
  "symmetry_field entry k = bindE (getitem_key entry ''symmetry'') (\<lambda>c. getitem_key c k)"

text \<open>
  \<^verbatim>\<open>len(entry['pdbx_seq_one_letter_code'])*110\<close>, a Python int, stored in the float64
  array: the product is exact, and a double holds it exactly (a length is far below
  \<open>2 ^ 53 / 110\<close>).
\<close>

definition protein_mass :: "json \<Rightarrow> error + pyfloat" where
  "protein_mass entry =
     bindE (getitem_key entry ''pdbx_seq_one_letter_code'') (\<lambda>s.
     bindE (py_len s) (\<lambda>n. Inr (FNum (real (n * 110)))))"

definition problem2_body :: "json \<Rightarrow> nat \<Rightarrow> extraction \<Rightarrow> error + extraction" where
  "problem2_body data i st =
     bindE (getitem_index data i) (\<lambda>d.
     bindE (getitem_key d ''entry'') (\<lambda>entry.
     bindE (problem2_cond entry) (\<lambda>c.
       if c then
         bindE (store_item i 0 (cell_field entry ''angle_alpha'') st) (\<lambda>st0.
         bindE (store_item i 1 (cell_field entry ''angle_beta'') st0) (\<lambda>st1.
         bindE (store_item i 2 (cell_field entry ''angle_gamma'') st1) (\<lambda>st2.
         bindE (store_item i 3 (cell_field entry ''length_a'') st2) (\<lambda>st3.
         bindE (store_item i 4 (cell_field entry ''length_b'') st3) (\<lambda>st4.
         bindE (store_item i 5 (cell_field entry ''length_c'') st4) (\<lambda>st5.
         bindE (store_item i 6
                  (bindE (symmetry_field entry ''space_group_name_hm'') char_to_float_json) st5) (\<lambda>st6.
         bindE (store_item i 7
                  (bindE (symmetry_field entry ''int_tables_number'') float_of_json) st6) (\<lambda>st7.
         bindE (store_item i 8 (protein_mass entry) st7) (\<lambda>st8.
         bindE (first_crystal entry) (\<lambda>x.
         bindE (getitem_key x ''density_matthews'') (\<lambda>dm.
         bindE (np_row1 dm) (\<lambda>b.
         bindE (assign_row i b (all_targets st8)) (\<lambda>targets.
           Inr (st8\<lparr>all_targets := targets,
                     indices := indices st8 @ [i]\<rparr>))))))))))))))
       else Inr st)))"

definition problem2 :: "json \<Rightarrow> error + extraction" where
  "problem2 data =
     bindE (py_len data) (\<lambda>n.
     bindE (for_each (problem2_body data) [0..<n]
              \<lparr>all_inputs = zeros n 9, all_targets = zeros n 1, indices = []\<rparr>) (\<lambda>st.
     bindE (select_rows (all_inputs st) (indices st)) (\<lambda>inputs.
     bindE (select_rows (all_targets st) (indices st)) (\<lambda>targets.
       Inr \<lparr>all_inputs = inputs, all_targets = targets, indices = indices st\<rparr>))))"

text \<open>
  The cells that load the dataset and extract the features of both problems, run in
  order: the first exception ends the run.
\<close>

definition notebook_features ::
  "(string \<Rightarrow> error + json) \<Rightarrow> string \<Rightarrow> error + extraction \<times> extraction" where
  "notebook_features loads content =
     bindE (load_data loads content) (\<lambda>data.
     bindE (problem1 data) (\<lambda>r1.
     bindE (problem2 data) (\<lambda>r2. Inr (r1, r2))))"

section \<open>Training and test sets\<close>

text \<open>
  \<^verbatim>\<open>
  np.random.seed(42)
  indices = np.random.permutation(len(all_inputs))
  train_indices = indices[:5 * len(all_inputs) // 6]
  test_indices = indices[5 * len(all_inputs) // 6:]
  inputs_training = all_inputs[train_indices]
  inputs_testing = all_inputs[test_indices]
  \<close>
  The shuffled index array is a parameter of the model, \<open>perm\<close>. The targets are split
  by the same two index lists as the inputs.
\<close>

definition split_indices :: "nat list \<Rightarrow> nat \<Rightarrow> nat list \<times> nat list" where
  "split_indices perm n = (take (5 * n div 6) perm, drop (5 * n div 6) perm)"

definition train_test_split ::
  "nat list \<Rightarrow> pyfloat list list \<Rightarrow> error + pyfloat list list \<times> pyfloat list list" where
  "train_test_split perm arr =
     (let (train_indices, test_indices) = split_indices perm (length arr)
      in bindE (select_rows arr train_indices) (\<lambda>training.
         bindE (select_rows arr test_indices) (\<lambda>testing. Inr (training, testing))))"

section \<open>The training loop\<close>

text \<open>
  \<^verbatim>\<open>
  num_epochs = 1000
  losses = []
  data_loader = DataLoader(TensorDataset(input_tensor,target_tensor), batch_size=64)
  for epoch in range(num_epochs):
      epoch_loss = 0.0
      for i, dataset in enumerate(data_loader):
          inputs, targets = dataset
          optimizer.zero_grad()
          outputs = model(inputs)
          loss = criterion(outputs, targets)
          loss.backward()
          optimizer.step()
          epoch_loss += loss.item()
      losses.append(epoch_loss)
      scheduler.step()
  \<close>
  The loop is the same in both problems. The operations of the framework are parameters
  of the model: \<open>'s\<close> is the state of the network, the optimizer and the scheduler, \<open>'b\<close> a
  minibatch of inputs and targets, \<open>'o\<close> an output tensor and \<open>'l\<close> a loss tensor. The
  model records each call in \<open>trace\<close>. Loss values are exact reals.
\<close>

datatype event = ZeroGrad | Forward | Criterion | Backward | OptimizerStep | LossAppend
  | SchedulerStep

record ('s, 'b, 'o, 'l) torch =
  zero_grad :: "'s \<Rightarrow> 's"
  model_forward :: "'s \<Rightarrow> 'b \<Rightarrow> 'o"
  criterion :: "'o \<Rightarrow> 'b \<Rightarrow> 'l"
  backward :: "'l \<Rightarrow> 's \<Rightarrow> 's"
  optimizer_step :: "'s \<Rightarrow> 's"
  loss_item :: "'l \<Rightarrow> real"
  scheduler_step :: "'s \<Rightarrow> 's"

record 's run =
  state :: 's
  epoch_loss :: real
  losses :: "real list"
  trace :: "event list"

definition num_epochs :: nat where
  "num_epochs = 1000"

definition batch_size :: nat where
  "batch_size = 64"

text \<open>
  A data loader without shuffling gives the rows in order, \<open>bs\<close> at a time, the last
  batch with the rows that remain. (A batch size of 0 is refused by the framework; the
  notebook uses 64.)
\<close>

function data_loader :: "nat \<Rightarrow> 'a list \<Rightarrow> 'a list list" where
  "data_loader bs rows =
     (if bs = 0 \<or> rows = [] then [] else take bs rows # data_loader bs (drop bs rows))"
  by pat_completeness auto
termination
  by (relation "measure (\<lambda>(bs, rows). length rows)") auto

definition train_batch :: "('s, 'b, 'o, 'l) torch \<Rightarrow> 'b \<Rightarrow> 's run \<Rightarrow> 's run" where
  "train_batch T b r =
     (let s1 = zero_grad T (state r);
          outputs = model_forward T s1 b;
          loss = criterion T outputs b;
          s2 = backward T loss s1;
          s3 = optimizer_step T s2
      in r\<lparr>state := s3, epoch_loss := epoch_loss r + loss_item T loss,
            trace := trace r @ [ZeroGrad, Forward, Criterion, Backward, OptimizerStep]\<rparr>)"

definition train_epoch :: "('s, 'b, 'o, 'l) torch \<Rightarrow> 'b list \<Rightarrow> 's run \<Rightarrow> 's run" where
  "train_epoch T batches r =
     (let r1 = foldl (\<lambda>r b. train_batch T b r) (r\<lparr>epoch_loss := 0\<rparr>) batches
      in r1\<lparr>state := scheduler_step T (state r1), losses := losses r1 @ [epoch_loss r1],
             trace := trace r1 @ [LossAppend, SchedulerStep]\<rparr>)"

fun train_epochs :: "('s, 'b, 'o, 'l) torch \<Rightarrow> 'b list \<Rightarrow> nat \<Rightarrow> 's run \<Rightarrow> 's run" where
  "train_epochs T batches 0 r = r"
| "train_epochs T batches (Suc n) r = train_epochs T batches n (train_epoch T batches r)"

definition train :: "('s, 'r list, 'o, 'l) torch \<Rightarrow> 'r list \<Rightarrow> 's \<Rightarrow> 's run" where
  "train T rows s0 =
     train_epochs T (data_loader batch_size rows) num_epochs
       \<lparr>state = s0, epoch_loss = 0, losses = [], trace = []\<rparr>"

section \<open>Notions of the specification\<close>

text \<open>
  A decimal numeral is a non-empty run of digits, or two such runs with a point between
  them; \<open>decimal_value\<close> is the number it denotes. \<open>token_value\<close> is what the
  specification averages: the code point divided by 100 for an alphabetic token, the
  numeric value otherwise. \<open>float_mean\<close> is the mean as float64 arithmetic computes it:
  each number is rounded to the nearest double, the doubles are added by the pairwise
  summation of numpy, every addition rounding, and the sum is divided by the count, the
  division rounding.
\<close>

definition digit_string :: "string \<Rightarrow> bool" where
  "digit_string s = (s \<noteq> [] \<and> list_all is_digit s)"

definition decimal_numeral :: "string \<Rightarrow> bool" where
  "decimal_numeral t =
     (let ip = takeWhile (\<lambda>c. c \<noteq> CHR ''.'') t; r = dropWhile (\<lambda>c. c \<noteq> CHR ''.'') t
      in digit_string ip \<and> (r = [] \<or> digit_string (tl r)))"

definition decimal_value :: "string \<Rightarrow> real" where
  "decimal_value t =
     (let ip = takeWhile (\<lambda>c. c \<noteq> CHR ''.'') t; fp = tl (dropWhile (\<lambda>c. c \<noteq> CHR ''.'') t)
      in real (digits_val ip) + real (digits_val fp) / 10 ^ length fp)"

definition token_value :: "string \<Rightarrow> real" where
  "token_value t = (if isalpha t then real (code_point (hd t)) / 100 else decimal_value t)"

definition np_sum_value :: "pyfloat list \<Rightarrow> pyfloat" where
  "np_sum_value fs = add_reduce fadd (FNum 0) fs"

definition float_mean :: "real list \<Rightarrow> pyfloat" where
  "float_mean xs = fdiv_len (np_sum_value (map round_double xs)) (length xs)"

text \<open>
  The schema that the specification assumes of an element of the dataset in Problem 1:
  the element is a mapping with an \<open>entry\<close> mapping; \<open>exptl_crystal\<close>, when present, is a
  list whose first element is a mapping; the two density fields, when present, are
  numbers that a double can hold: a float, or an int below \<open>2 ^ 1024 - 2 ^ 970\<close> in
  magnitude, of which the nearest double is finite.
  \<open>p1_retained\<close> is the selection of the specification and \<open>density\<close> the value of a
  density field of the first crystal, as a float.
\<close>

definition entry_of :: "json \<Rightarrow> (string \<times> json) list option" where
  "entry_of d = (case d of
       JObj kvs \<Rightarrow> (case map_of kvs ''entry'' of Some (JObj en) \<Rightarrow> Some en | _ \<Rightarrow> None)
     | _ \<Rightarrow> None)"

definition crystal_of :: "(string \<times> json) list \<Rightarrow> (string \<times> json) list option" where
  "crystal_of en = (case map_of en ''exptl_crystal'' of
       Some (JArr (JObj c # cs)) \<Rightarrow> Some c
     | _ \<Rightarrow> None)"

definition number_value :: "json \<Rightarrow> pyfloat option" where
  "number_value v = (case v of
       JFloat x \<Rightarrow> Some x
     | JInt n \<Rightarrow> if \<bar>n\<bar> < 2 ^ 1024 - 2 ^ 970 then Some (round_double (of_int n)) else None
     | _ \<Rightarrow> None)"

definition number_field :: "(string \<times> json) list \<Rightarrow> string \<Rightarrow> bool" where
  "number_field c k = (case map_of c k of None \<Rightarrow> True | Some v \<Rightarrow> number_value v \<noteq> None)"

definition p1_well_formed :: "json \<Rightarrow> bool" where
  "p1_well_formed d = (case entry_of d of
       None \<Rightarrow> False
     | Some en \<Rightarrow>
        (case map_of en ''exptl_crystal'' of
           None \<Rightarrow> True
         | Some xc \<Rightarrow>
            (case crystal_of en of
               None \<Rightarrow> False
             | Some c \<Rightarrow> number_field c ''density_matthews'' \<and>
                         number_field c ''density_percent_sol'')))"

definition p1_retained :: "json \<Rightarrow> bool" where
  "p1_retained d = (case entry_of d of
       None \<Rightarrow> False
     | Some en \<Rightarrow>
        (case crystal_of en of
           None \<Rightarrow> False
         | Some c \<Rightarrow> map_of c ''density_matthews'' \<noteq> None \<and>
                     map_of c ''density_percent_sol'' \<noteq> None))"

definition density :: "string \<Rightarrow> json \<Rightarrow> pyfloat" where
  "density k d = (case entry_of d of
       None \<Rightarrow> FNaN
     | Some en \<Rightarrow>
        (case crystal_of en of
           None \<Rightarrow> FNaN
         | Some c \<Rightarrow>
            (case map_of c k of
               None \<Rightarrow> FNaN
             | Some v \<Rightarrow> (case number_value v of Some x \<Rightarrow> x | None \<Rightarrow> FNaN))))"

text \<open>
  The losses of the batches of one epoch that starts in the state \<open>s\<close>, the state after
  these batches, the state in which epoch \<open>e\<close> starts, and the calls of one batch and of
  one epoch of \<open>m\<close> batches.
\<close>

fun batch_losses :: "('s, 'b, 'o, 'l) torch \<Rightarrow> 'b list \<Rightarrow> 's \<Rightarrow> real list" where
  "batch_losses T [] s = []"
| "batch_losses T (b # bs) s =
     (let s1 = zero_grad T s; loss = criterion T (model_forward T s1 b) b
      in loss_item T loss # batch_losses T bs (optimizer_step T (backward T loss s1)))"

fun batches_state :: "('s, 'b, 'o, 'l) torch \<Rightarrow> 'b list \<Rightarrow> 's \<Rightarrow> 's" where
  "batches_state T [] s = s"
| "batches_state T (b # bs) s =
     (let s1 = zero_grad T s; loss = criterion T (model_forward T s1 b) b
      in batches_state T bs (optimizer_step T (backward T loss s1)))"

fun epoch_start :: "('s, 'b, 'o, 'l) torch \<Rightarrow> 'b list \<Rightarrow> nat \<Rightarrow> 's \<Rightarrow> 's" where
  "epoch_start T batches 0 s = s"
| "epoch_start T batches (Suc e) s =
     epoch_start T batches e (scheduler_step T (batches_state T batches s))"

definition batch_events :: "event list" where
  "batch_events = [ZeroGrad, Forward, Criterion, Backward, OptimizerStep]"

definition epoch_events :: "nat \<Rightarrow> event list" where
  "epoch_events m = concat (replicate m batch_events) @ [LossAppend, SchedulerStep]"

section \<open>Sample entries\<close>

text \<open>
  A complete entry, an entry with an empty \<open>entry\<close> mapping, entries that lack one of
  the keys \<open>exptl_crystal\<close>, \<open>symmetry\<close> and \<open>pdbx_seq_one_letter_code\<close>, and an entry
  whose list of crystals is empty; and the arrays that the two problems extract from the
  bare and the complete entry. The seventh feature of the complete entry is the double
  15.95 that \<open>char_to_float\<close> returns for its space group.
\<close>

definition sample_crystal :: json where
  "sample_crystal = JArr [JObj [(''density_matthews'', JFloat (FNum (5 / 2))),
                               (''density_percent_sol'', JInt 50)]]"

definition sample_cell :: json where
  "sample_cell = JObj [(''angle_alpha'', JInt 90), (''angle_beta'', JInt 90),
     (''angle_gamma'', JInt 90), (''length_a'', JInt 10),
     (''length_b'', JInt 20), (''length_c'', JInt 30)]"

definition sample_symmetry :: json where
  "sample_symmetry = JObj [(''space_group_name_hm'', JStr ''P 21 21 21''),
                           (''int_tables_number'', JInt 19)]"

definition sample_entry :: json where
  "sample_entry = JObj [(''entry'', JObj [(''exptl_crystal'', sample_crystal),
     (''cell'', sample_cell), (''symmetry'', sample_symmetry),
     (''pdbx_seq_one_letter_code'', JStr ''MKV'')])]"

definition sample_bare :: json where
  "sample_bare = JObj [(''entry'', JObj [])]"

definition sample_no_crystal :: json where
  "sample_no_crystal = JObj [(''entry'', JObj [(''cell'', sample_cell),
     (''symmetry'', sample_symmetry), (''pdbx_seq_one_letter_code'', JStr ''MKV'')])]"

definition sample_no_symmetry :: json where
  "sample_no_symmetry = JObj [(''entry'', JObj [(''exptl_crystal'', sample_crystal),
     (''cell'', sample_cell), (''pdbx_seq_one_letter_code'', JStr ''MKV'')])]"

definition sample_no_sequence :: json where
  "sample_no_sequence = JObj [(''entry'', JObj [(''exptl_crystal'', sample_crystal),
     (''cell'', sample_cell), (''symmetry'', sample_symmetry)])]"

definition sample_empty_crystal :: json where
  "sample_empty_crystal = JObj [(''entry'', JObj [(''exptl_crystal'', JArr [])])]"

definition sample_result1 :: extraction where
  "sample_result1 = \<lparr>all_inputs = [[FNum (5 / 2)]], all_targets = [[FNum 50]], indices = [1]\<rparr>"

definition sample_result2 :: extraction where
  "sample_result2 = \<lparr>all_inputs = [[FNum 90, FNum 90, FNum 90, FNum 10, FNum 20, FNum 30,
        FNum (4489525878534963 / 281474976710656), FNum 19, FNum 330]], all_targets = [[FNum (5 / 2)]], indices = [1]\<rparr>"


text \<open>A parser that knows two lines, to run the loader on.\<close>

definition sample_loads :: "string \<Rightarrow> error + json" where
  "sample_loads line =
     (if line = ''[]'' @ [CHR 0x0A] then Inr (JArr [])
      else if line = ''{}'' then Inr (JObj []) else Inl ValueError)"

section \<open>Auxiliary functions of the proofs\<close>

text \<open>The loop of \<open>char_to_float\<close> as a traversal of the tokens.\<close>

fun convert_all :: "string list \<Rightarrow> error + pyfloat list" where
  "convert_all [] = Inr []"
| "convert_all (t # ts) =
     (case convert_part t of
        Inl e \<Rightarrow> Inl e
      | Inr f \<Rightarrow> (case convert_all ts of Inl e \<Rightarrow> Inl e | Inr fs \<Rightarrow> Inr (f # fs)))"

text \<open>
  Invariants of the extraction loops: the shapes of the two arrays, the ninth column of
  the rows kept, and the state of Problem 1 after \<open>k\<close> rounds on well-formed entries.
\<close>

definition mass_of :: "json \<Rightarrow> nat \<Rightarrow> pyfloat \<Rightarrow> bool" where
  "mass_of data i x \<longleftrightarrow>
     (\<exists>d entry. getitem_index data i = Inr d \<and> getitem_key d ''entry'' = Inr entry \<and>
        protein_mass entry = Inr x)"

definition widths_inv :: "nat \<Rightarrow> nat \<Rightarrow> extraction \<Rightarrow> bool" where
  "widths_inv n m st \<longleftrightarrow>
     length (all_inputs st) = n \<and> length (all_targets st) = n \<and>
     (\<forall>r\<in>set (all_inputs st). length r = m) \<and> (\<forall>r\<in>set (all_targets st). length r = 1) \<and>
     (\<forall>j\<in>set (indices st). j < n)"

definition mass_inv :: "json \<Rightarrow> nat \<Rightarrow> extraction \<Rightarrow> bool" where
  "mass_inv data n st \<longleftrightarrow>
     widths_inv n 9 st \<and> (\<forall>j\<in>set (indices st). mass_of data j (all_inputs st ! j ! 8))"

definition p1_state :: "json list \<Rightarrow> nat \<Rightarrow> extraction" where
  "p1_state ds k =
     \<lparr>all_inputs = map (\<lambda>i. if i < k \<and> p1_retained (ds ! i) then [density ''density_matthews'' (ds ! i)] else [FNum 0]) [0..<length ds],
      all_targets = map (\<lambda>i. if i < k \<and> p1_retained (ds ! i) then [density ''density_percent_sol'' (ds ! i)] else [FNum 0]) [0..<length ds],
      indices = filter (\<lambda>i. p1_retained (ds ! i)) [0..<k]\<rparr>"

section \<open>Properties of rounding\<close>

text \<open>
  \<open>round_double\<close> is off by at most half a quantum, it is finite exactly on the reals
  below \<open>2 ^ 1024 - 2 ^ 970\<close> in magnitude, and it is exact on the integers up to
  \<open>2 ^ 53\<close>.
\<close>

declare bit_length.simps [simp del]

lemma bit_length_bounds:
  "0 < n \<Longrightarrow> 1 \<le> bit_length n \<and> 2 ^ nat (bit_length n - 1) \<le> n \<and> n < 2 ^ nat (bit_length n)"
proof (induction n rule: bit_length.induct)
  case (1 n)
  show ?case
  proof (cases "n div 2 = 0")
    case True
    then have "n = 1" using "1.prems" by presburger
    then show ?thesis
      by (simp add: bit_length.simps [of 1] bit_length.simps [of 0])
  next
    case False
    then have pos: "0 < n div 2" using "1.prems" by presburger
    let ?b = "bit_length (n div 2)"
    have ih: "1 \<le> ?b" "2 ^ nat (?b - 1) \<le> n div 2" "n div 2 < 2 ^ nat ?b"
      using "1.IH" "1.prems" pos by auto
    have bl: "bit_length n = 1 + ?b"
      using "1.prems" by (simp add: bit_length.simps [of n])
    have e1: "nat (1 + ?b - 1) = Suc (nat (?b - 1))" using ih(1) by simp
    have e2: "nat (1 + ?b) = Suc (nat ?b)" using ih(1) by simp
    have "2 * 2 ^ nat (?b - 1) \<le> n" using ih(2) by presburger
    moreover have "n < 2 * 2 ^ nat ?b" using ih(3) by presburger
    ultimately show ?thesis
      using ih(1) by (simp only: bl e1 e2 power_Suc) simp
  qed
qed


lemma pow2_nonneg: "0 \<le> k \<Longrightarrow> pow2 k = 2 ^ nat k"
  by (simp add: pow2_def)

lemma pow2_pos: "0 < pow2 k"
  by (simp add: pow2_def)

lemma binade_bounds:
  assumes "1 \<le> a"
  shows "0 \<le> binade a" "2 ^ nat (binade a) \<le> a" "a < 2 ^ nat (binade a + 1)"
proof -
  have pos: "0 < \<lfloor>a\<rfloor>" using assms by linarith
  note b = bit_length_bounds [OF pos]
  have e: "binade a = bit_length \<lfloor>a\<rfloor> - 1" using assms by (simp add: binade_def)
  show "0 \<le> binade a" using b e by simp
  have "(2::int) ^ nat (bit_length \<lfloor>a\<rfloor> - 1) \<le> \<lfloor>a\<rfloor>" using b by simp
  then have "of_int ((2::int) ^ nat (bit_length \<lfloor>a\<rfloor> - 1)) \<le> a"
    using le_floor_iff by blast
  then show "2 ^ nat (binade a) \<le> a" by (simp add: e)
  have "\<lfloor>a\<rfloor> < 2 ^ nat (bit_length \<lfloor>a\<rfloor>)" using b by simp
  then have "a < of_int ((2::int) ^ nat (bit_length \<lfloor>a\<rfloor>))"
    using floor_less_iff by blast
  then show "a < 2 ^ nat (binade a + 1)" by (simp add: e)
qed

lemma round_half_even_int: "round_half_even (of_int k) = k"
  by (simp add: round_half_even_def nearest_even_def)

lemma round_half_even_error: "\<bar>of_int (round_half_even y) - y\<bar> \<le> 1 / 2"
proof -
  have "of_int \<lfloor>y\<rfloor> \<le> y" "y < of_int \<lfloor>y\<rfloor> + 1" by linarith+
  then show ?thesis
    by (auto simp: round_half_even_def nearest_even_def abs_le_iff)
qed


lemma bit_length_nonneg: "0 \<le> bit_length n"
  using bit_length_bounds [of n] by (cases "0 < n") (simp_all add: bit_length.simps [of n])

lemma binade_below_one: "a < 1 \<Longrightarrow> binade a \<le> 0"
  using bit_length_nonneg [of "\<lceil>1 / a\<rceil> - 1"] by (simp add: binade_def)

lemma round_half_even_less_even:
  assumes "even k"
  shows "round_half_even y < k \<longleftrightarrow> y < of_int k - 1 / 2"
proof -
  let ?f = "\<lfloor>y\<rfloor>"
  have fl: "of_int ?f \<le> y" "y < of_int ?f + 1" by linarith+
  consider "?f \<le> k - 2" | "?f = k - 1" | "k \<le> ?f" by linarith
  then show ?thesis
  proof cases
    case 1
    then have "y < of_int k - 1" using fl(2) by linarith
    moreover have "round_half_even y \<le> ?f + 1"
      by (simp add: round_half_even_def nearest_even_def)
    ultimately show ?thesis using 1 by linarith
  next
    case 2
    then have odd: "odd ?f" using assms by simp
    have y: "y - of_int ?f = y - of_int k + 1" using 2 by simp
    show ?thesis
      using odd 2 by (auto simp: round_half_even_def nearest_even_def y)
  next
    case 3
    then have "of_int k \<le> y" using fl(1) by linarith
    moreover have "?f \<le> round_half_even y"
      by (simp add: round_half_even_def nearest_even_def)
    ultimately show ?thesis using 3 by linarith
  qed
qed


lemma round_double_nonzero:
  "x \<noteq> 0 \<Longrightarrow> round_double x =
     (if 1023 < binade \<bar>x\<bar> then inf_double (x < 0)
      else if binade \<bar>x\<bar> = 1023 \<and>
              2 ^ 53 \<le> round_half_even (\<bar>x\<bar> / pow2 (max (binade \<bar>x\<bar>) (- 1022) - 52))
           then inf_double (x < 0)
      else FNum (if x < 0
             then - (of_int (round_half_even (\<bar>x\<bar> / pow2 (max (binade \<bar>x\<bar>) (- 1022) - 52))) *
                     pow2 (max (binade \<bar>x\<bar>) (- 1022) - 52))
             else of_int (round_half_even (\<bar>x\<bar> / pow2 (max (binade \<bar>x\<bar>) (- 1022) - 52))) *
                     pow2 (max (binade \<bar>x\<bar>) (- 1022) - 52)))"
  by (simp only: round_double_def round_binade_def round_quantum_def pack_double_def if_False)

lemma round_double_cases:
  assumes "x \<noteq> 0"
  obtains "round_double x = inf_double (x < 0)"
  | m q where "q = pow2 (max (binade \<bar>x\<bar>) (- 1022) - 52)" "m = round_half_even (\<bar>x\<bar> / q)"
      "round_double x = FNum (if x < 0 then - (of_int m * q) else of_int m * q)"
      "binade \<bar>x\<bar> \<le> 1023" "binade \<bar>x\<bar> = 1023 \<Longrightarrow> m < 2 ^ 53"
proof -
  define q where "q = pow2 (max (binade \<bar>x\<bar>) (- 1022) - 52)"
  define m where "m = round_half_even (\<bar>x\<bar> / q)"
  define e where "e = binade \<bar>x\<bar>"
  have r: "round_double x =
     (if 1023 < e then inf_double (x < 0)
      else if e = 1023 \<and> 2 ^ 53 \<le> m then inf_double (x < 0)
      else FNum (if x < 0 then - (of_int m * q) else of_int m * q))"
    unfolding e_def m_def q_def by (rule round_double_nonzero [OF assms])
  show thesis
  proof (cases "1023 < e \<or> (e = 1023 \<and> 2 ^ 53 \<le> m)")
    case True
    then have "round_double x = inf_double (x < 0)" unfolding r by auto
    then show ?thesis by (rule that(1))
  next
    case False
    then have "round_double x = FNum (if x < 0 then - (of_int m * q) else of_int m * q)"
      unfolding r by auto
    moreover have "e \<le> 1023" "e = 1023 \<Longrightarrow> m < 2 ^ 53" using False by auto
    ultimately show ?thesis
      using that(2) [of q m] q_def m_def unfolding e_def by blast
  qed
qed


lemma inf_double_not_FNum: "inf_double neg \<noteq> FNum y"
  by (simp add: inf_double_def)

lemma round_double_error:
  assumes "round_double x = FNum y"
  shows "\<bar>y - x\<bar> \<le> pow2 (max (binade \<bar>x\<bar>) (- 1022) - 52) / 2"
proof (cases "x = 0")
  case True
  then show ?thesis using assms pow2_pos [of "max (binade \<bar>x\<bar>) (- 1022) - 52"]
    by (simp add: round_double_def)
next
  case False
  from False show ?thesis
  proof (cases rule: round_double_cases)
    case 1
    then show ?thesis using assms inf_double_not_FNum [of "x < 0" y] by metis
  next
    case (2 m q)
    have q: "0 < q" unfolding 2(1) by (rule pow2_pos)
    have y: "y = (if x < 0 then - (of_int m * q) else of_int m * q)"
      using assms 2(3) by simp
    have "\<bar>of_int m - \<bar>x\<bar> / q\<bar> \<le> 1 / 2" unfolding 2(2) by (rule round_half_even_error)
    then have "\<bar>of_int m - \<bar>x\<bar> / q\<bar> * q \<le> 1 / 2 * q"
      using q by (simp only: mult_le_cancel_right_pos)
    moreover have "\<bar>of_int m - \<bar>x\<bar> / q\<bar> * q = \<bar>(of_int m - \<bar>x\<bar> / q) * q\<bar>"
      using q by (simp only: abs_mult_pos less_imp_le)
    moreover have "(of_int m - \<bar>x\<bar> / q) * q = of_int m * q - \<bar>x\<bar>"
      using q by (simp add: left_diff_distrib)
    ultimately have "\<bar>of_int m * q - \<bar>x\<bar>\<bar> \<le> q / 2" by simp
    then have "\<bar>y - x\<bar> \<le> q / 2"
      by (auto simp: y abs_if split: if_splits)
    then show ?thesis unfolding 2(1) .
  qed
qed


lemma is_finite_simps [simp]:
  "is_finite (FNum a)" "\<not> is_finite FPosInf" "\<not> is_finite FNegInf" "\<not> is_finite FNaN"
  "\<not> is_finite (inf_double neg)"
  by (simp_all add: is_finite_def inf_double_def)

lemma round_double_finite_iff:
  "is_finite (round_double x) \<longleftrightarrow> \<bar>x\<bar> < 2 ^ 1024 - 2 ^ 970"
proof (cases "x = 0")
  case True
  then show ?thesis by (simp add: round_double_def)
next
  case False
  define a where "a = \<bar>x\<bar>"
  define e where "e = binade a"
  define m where "m = round_half_even (a / pow2 (max e (- 1022) - 52))"
  have fin: "is_finite (round_double x) \<longleftrightarrow> \<not> (1023 < e \<or> (e = 1023 \<and> 2 ^ 53 \<le> m))"
    unfolding round_double_nonzero [OF False] m_def e_def a_def by auto
  show ?thesis
  proof (cases "a < 1")
    case True
    then have "e \<le> 0" unfolding e_def by (rule binade_below_one)
    then show ?thesis using True fin by (simp add: a_def)
  next
    case False
    then have a1: "1 \<le> a" by simp
    note b = binade_bounds [OF a1, folded e_def]
    consider "1023 < e" | "e < 1023" | "e = 1023" by linarith
    then show ?thesis
    proof cases
      case 1
      then have "(2::real) ^ 1024 \<le> 2 ^ nat e" by (intro power_increasing) simp_all
      then have "2 ^ 1024 \<le> a" using b(2) by linarith
      then show ?thesis using 1 fin by (simp add: a_def)
    next
      case 2
      then have "(2::real) ^ nat (e + 1) \<le> 2 ^ 1023" by (intro power_increasing) simp_all
      then have "a < 2 ^ 1023" using b(3) by linarith
      then show ?thesis using 2 fin by (simp add: a_def)
    next
      case 3
      have m: "m = round_half_even (a / 2 ^ 971)"
        unfolding m_def 3 by (simp add: pow2_def)
      have "m < 2 ^ 53 \<longleftrightarrow> a / 2 ^ 971 < of_int (2 ^ 53) - 1 / 2"
        unfolding m by (rule round_half_even_less_even) simp
      also have "\<dots> \<longleftrightarrow> a < 2 ^ 1024 - 2 ^ 970"
        by (simp add: field_simps)
      finally show ?thesis using 3 fin by (simp add: a_def not_le)
    qed
  qed
qed


lemma pow2_nonpos: "k \<le> 0 \<Longrightarrow> pow2 k = 1 / 2 ^ nat (- k)"
  by (cases "k = 0") (simp_all add: pow2_def)

lemma round_double_of_int:
  assumes "\<bar>n\<bar> \<le> 2 ^ 53"
  shows "round_double (of_int n) = FNum (of_int n)"
proof (cases "n = 0")
  case True
  then show ?thesis by (simp add: round_double_def)
next
  case False
  define x :: real where "x = of_int n"
  have x0: "x \<noteq> 0" using False by (simp add: x_def)
  have a: "\<bar>x\<bar> = of_int \<bar>n\<bar>" by (simp add: x_def)
  have a1: "1 \<le> \<bar>x\<bar>" using False unfolding a by linarith
  have "real_of_int \<bar>n\<bar> \<le> real_of_int (2 ^ 53)" using assms by (simp only: of_int_le_iff)
  then have a53: "\<bar>x\<bar> \<le> 2 ^ 53" unfolding a by simp
  define e where "e = binade \<bar>x\<bar>"
  note b = binade_bounds [OF a1, folded e_def]
  have "(2::real) ^ nat e \<le> 2 ^ 53" using b(2) a53 by linarith
  then have "nat e \<le> 53" by (rule power_le_imp_le_exp [rotated]) simp
  then have e53: "e \<le> 53" by simp
  have "is_finite (round_double x)"
    unfolding round_double_finite_iff using a53 by simp
  with x0 show ?thesis
  proof (cases rule: round_double_cases)
    case 1
    then show ?thesis using \<open>is_finite (round_double x)\<close> by simp
  next
    case (2 m q)
    have q: "q = pow2 (e - 52)" using b(1) unfolding 2(1) e_def by (simp add: max_def)
    have "\<exists>k. \<bar>x\<bar> / q = of_int k \<and> of_int k * q = \<bar>x\<bar>"
    proof (cases "e \<le> 52")
      case True
      then have "q = 1 / 2 ^ nat (52 - e)" unfolding q by (simp add: pow2_nonpos)
      then have "\<bar>x\<bar> / q = of_int (\<bar>n\<bar> * 2 ^ nat (52 - e))"
        "of_int (\<bar>n\<bar> * 2 ^ nat (52 - e)) * q = \<bar>x\<bar>"
        by (simp_all add: a)
      then show ?thesis by blast
    next
      case False
      then have e: "e = 53" using e53 by simp
      then have "\<bar>x\<bar> = 2 ^ 53" using b(2) a53 by simp
      moreover have "q = 2" unfolding q e by (simp add: pow2_def)
      ultimately have "\<bar>x\<bar> / q = of_int (2 ^ 52)" "of_int (2 ^ 52) * q = \<bar>x\<bar>" by simp_all
      then show ?thesis by blast
    qed
    then obtain k where k: "\<bar>x\<bar> / q = of_int k" "of_int k * q = \<bar>x\<bar>" by blast
    have "m = k" unfolding 2(2) k(1) by (rule round_half_even_int)
    then have "round_double x = FNum (if x < 0 then - \<bar>x\<bar> else \<bar>x\<bar>)"
      using 2(3) k(2) by simp
    then show ?thesis by (simp add: x_def abs_if)
  qed
qed

lemma int_to_float_exact: "\<bar>n\<bar> \<le> 2 ^ 53 \<Longrightarrow> int_to_float n = Inr (FNum (of_int n))"
  by (simp add: int_to_float_def round_double_of_int)

lemma len_to_float_exact: "n \<le> 2 ^ 53 \<Longrightarrow> len_to_float n = FNum (real n)"
  using round_double_of_int [of "int n"] by (simp add: len_to_float_def)

lemma int_to_float_Inr_iff:
  "(\<exists>y. int_to_float n = Inr y) \<longleftrightarrow> \<bar>n\<bar> < 2 ^ 1024 - 2 ^ 970"
proof -
  have "(\<exists>y. int_to_float n = Inr y) \<longleftrightarrow> is_finite (round_double (of_int n))"
    by (cases "round_double (of_int n)") (simp_all add: int_to_float_def)
  also have "\<dots> \<longleftrightarrow> \<bar>real_of_int n\<bar> < 2 ^ 1024 - 2 ^ 970"
    by (rule round_double_finite_iff)
  also have "\<dots> \<longleftrightarrow> real_of_int \<bar>n\<bar> < real_of_int (2 ^ 1024 - 2 ^ 970)"
    by simp
  also have "\<dots> \<longleftrightarrow> \<bar>n\<bar> < 2 ^ 1024 - 2 ^ 970"
    by (rule of_int_less_iff)
  finally show ?thesis .
qed

section \<open>Properties of the feature hash\<close>

declare ctf_loop.simps [simp del]
declare pairwise_sum.simps [simp del]

subsection \<open>The sum and the environment\<close>

lemma foldl_hom:
  assumes "\<And>p q. h (add' p q) = add (h p) (h q)"
  shows "h (foldl add' z ps) = foldl add (h z) (map h ps)"
  by (induction ps arbitrary: z) (simp_all add: assms)

lemma accumulator_hom:
  assumes "\<And>p q. h (add' p q) = add (h p) (h q)" and "8 \<le> length ps" and "j < 8"
  shows "h (accumulator add' ps j) = accumulator add (map h ps) j"
proof -
  have "map h (map (\<lambda>k. ps ! (8 * k + j)) [1..<length ps div 8]) =
        map (\<lambda>k. map h ps ! (8 * k + j)) [1..<length ps div 8]"
    using assms(3) by (auto simp: nth_map)
  moreover have "h (ps ! j) = map h ps ! j"
    using assms(2,3) by (simp add: nth_map)
  moreover have "h (accumulator add' ps j) =
      foldl add (h (ps ! j)) (map h (map (\<lambda>k. ps ! (8 * k + j)) [1..<length ps div 8]))"
    unfolding accumulator_def by (rule foldl_hom) (rule assms(1))
  ultimately show ?thesis
    by (simp only: accumulator_def length_map)
qed

lemma block_sum_hom:
  assumes "\<And>p q. h (add' p q) = add (h p) (h q)" and "8 \<le> length ps"
  shows "h (block_sum add' ps) = block_sum add (map h ps)"
  unfolding block_sum_def
  by (simp add: foldl_hom [of h add' add, OF assms(1)] assms(1)
        accumulator_hom [of h add' add, OF assms] drop_map)

lemma pairwise_sum_hom:
  assumes "\<And>p q. h (add' p q) = add (h p) (h q)"
  shows "h (pairwise_sum add' z ps) = pairwise_sum add (h z) (map h ps)"
  using assms
proof (induction add' z ps rule: pairwise_sum.induct)
  case (1 add' z ps)
  note hom = "1.prems"
  show ?case
  proof (cases "length ps < 8")
    case True
    then show ?thesis
      by (simp add: pairwise_sum.simps [of _ _ ps] pairwise_sum.simps [of _ _ "map h ps"]
            foldl_hom [of h add' add, OF hom])
  next
    case False
    show ?thesis
    proof (cases "length ps \<le> 128")
      case True
      then show ?thesis
        using False block_sum_hom [of h add' add ps, OF hom]
        by (simp add: pairwise_sum.simps [of _ _ ps] pairwise_sum.simps [of _ _ "map h ps"])
    next
      case long: False
      have a: "h (pairwise_sum add' z (take (half_block (length ps)) ps)) =
               pairwise_sum add (h z) (map h (take (half_block (length ps)) ps))"
        using "1.IH"(1) [OF False long hom] .
      have b: "h (pairwise_sum add' z (drop (half_block (length ps)) ps)) =
               pairwise_sum add (h z) (map h (drop (half_block (length ps)) ps))"
        using "1.IH"(2) [OF False long hom] .
      show ?thesis
        using False long a b
        by (simp add: pairwise_sum.simps [of _ _ ps] pairwise_sum.simps [of _ _ "map h ps"]
              hom take_map drop_map)
    qed
  qed
qed

lemma add_reduce_hom:
  assumes "\<And>p q. h (add' p q) = add (h p) (h q)"
  shows "h (add_reduce add' z ps) = add_reduce add (h z) (map h ps)"
  by (simp add: add_reduce_def assms pairwise_sum_hom [of h add' add, OF assms])

lemma fst_fadd_flagged: "fst (fadd_flagged p q) = fadd (fst p) (fst q)"
  by (simp add: fadd_flagged_def flag_sum_def)

lemma fst_add_reduce:
  "fst (add_reduce fadd_flagged (z, fl) (map (\<lambda>f. (f, [])) fs)) = add_reduce fadd z fs"
  using add_reduce_hom [of fst fadd_flagged fadd "(z, fl)" "map (\<lambda>f. (f, [])) fs", OF fst_fadd_flagged]
  by (simp add: comp_def)

lemma floats_of_floats: "floats_of (map PFloat fs) = Some fs"
  by (induction fs) simp_all

lemma handle_fp_errors_default: "handle_fp_errors default_fp_env raised fs = None"
  by (induction fs) (auto simp: error_handler_def mode_of_def default_fp_env_def split: fp_flag.splits)

lemma check_fp_default: "check_fp default_fp_env r = Inr (fst r)"
  unfolding check_fp_def give_fp_errors_def handle_fp_errors_default by simp




lemma np_sum_floats:
  "np_sum env (map PFloat fs) =
     check_fp env (add_reduce fadd_flagged (FNum 0, []) (map (\<lambda>f. (f, [])) fs))"
  by (simp add: np_sum_def floats_of_floats)

lemma ctf_loop_convert_all:
  "length fs = i \<Longrightarrow>
   ctf_loop i (map PFloat fs @ map PStr ts) =
     (case convert_all ts of Inl e \<Rightarrow> Inl e | Inr gs \<Rightarrow> Inr (map PFloat (fs @ gs)))"
proof (induction ts arbitrary: fs i)
  case Nil
  then show ?case by (simp add: ctf_loop.simps [of i])
next
  case (Cons t ts)
  have nth: "(map PFloat fs @ map PStr (t # ts)) ! i = PStr t"
    using Cons.prems by (simp add: nth_append)
  have upd: "(map PFloat fs @ map PStr (t # ts))[i := PFloat f] = map PFloat (fs @ [f]) @ map PStr ts" for f
    using Cons.prems by (simp add: list_update_append)
  show ?case
  proof (cases "convert_part t")
    case (Inl e)
    then show ?thesis
      using Cons.prems nth by (simp add: ctf_loop.simps [of i])
  next
    case (Inr f)
    have "ctf_loop i (map PFloat fs @ map PStr (t # ts)) = ctf_loop (i + 1) (map PFloat (fs @ [f]) @ map PStr ts)"
      using Cons.prems nth upd [of f] Inr by (simp add: ctf_loop.simps [of i])
    also have "\<dots> = (case convert_all ts of Inl e \<Rightarrow> Inl e | Inr gs \<Rightarrow> Inr (map PFloat ((fs @ [f]) @ gs)))"
      by (rule Cons.IH) (simp add: Cons.prems)
    finally show ?thesis
      using Inr by (simp split: sum.splits)
  qed
qed

lemma char_to_float_in_convert_all:
  "char_to_float_in env s =
     (case convert_all (split s) of
        Inl e \<Rightarrow> Inl e
      | Inr fs \<Rightarrow>
         (case check_fp env (add_reduce fadd_flagged (FNum 0, []) (map (\<lambda>f. (f, [])) fs)) of
            Inl e \<Rightarrow> Inl e
          | Inr t \<Rightarrow> scalar_divide env t (length fs)))"
  using ctf_loop_convert_all [of "[]" 0 "split s"]
  by (simp add: char_to_float_in_def np_sum_floats split: sum.splits)

lemma char_to_float_convert_all:
  "char_to_float s =
     (case convert_all (split s) of
        Inl e \<Rightarrow> Inl e
      | Inr fs \<Rightarrow> Inr (fdiv_len (np_sum_value fs) (length fs)))"
  by (simp add: char_to_float_def char_to_float_in_convert_all check_fp_default scalar_divide_def
        fst_add_reduce np_sum_value_def split: sum.splits)


subsection \<open>Tokens\<close>

lemma is_digit_facts:
  "is_digit c \<Longrightarrow> c \<noteq> CHR ''.'' \<and> c \<noteq> CHR ''_'' \<and> c \<noteq> CHR ''-'' \<and> c \<noteq> CHR ''+'' \<and>
     \<not> is_float_space c \<and> lower_char c = c \<and> c \<noteq> CHR ''i'' \<and> c \<noteq> CHR ''n'' \<and> \<not> is_alpha_char c"
  by (auto simp: is_digit_def is_float_space_def lower_char_def is_alpha_char_def code_point_def Let_def)

lemma not_digit_point: "\<not> is_digit (CHR ''.'')"
  by (simp add: is_digit_def code_point_def)

lemma underscores_ok_none:
  "CHR ''_'' \<notin> set s \<Longrightarrow> p \<noteq> CHR ''_'' \<Longrightarrow> underscores_ok p s"
  by (induction s arbitrary: p) auto

lemma digits_val_foldl:
  "foldl (\<lambda>a c. 10 * a + digit_val c) a ds = a * 10 ^ length ds + digits_val ds"
proof (induction ds arbitrary: a)
  case Nil
  then show ?case by (simp add: digits_val_def)
next
  case (Cons d ds)
  show ?case
    using Cons.IH [of "10 * a + digit_val d"] Cons.IH [of "digit_val d"]
    by (simp add: digits_val_def algebra_simps)
qed

lemma digits_val_append:
  "digits_val (ip @ fp) = digits_val ip * 10 ^ length fp + digits_val fp"
  using digits_val_foldl [of "digits_val ip" fp] by (simp add: digits_val_def)

lemma decimal_numeral_shape:
  assumes "decimal_numeral t"
  obtains ip fp where "digit_string ip" "t = ip \<or> (digit_string fp \<and> t = ip @ CHR ''.'' # fp)"
    "decimal_value t = real (digits_val ip) + real (digits_val (if t = ip then [] else fp)) / 10 ^ length (if t = ip then [] else fp)"
proof -
  let ?P = "\<lambda>c. c \<noteq> CHR ''.''"
  let ?ip = "takeWhile ?P t" and ?r = "dropWhile ?P t"
  have ip: "digit_string ?ip" and r: "?r = [] \<or> digit_string (tl ?r)"
    using assms by (simp_all add: decimal_numeral_def Let_def)
  have t: "t = ?ip @ ?r" by simp
  show thesis
  proof (cases "?r = []")
    case True
    then have "t = ?ip" using t by (metis append_Nil2)
    moreover have "decimal_value t = real (digits_val ?ip) + real (digits_val []) / 10 ^ length ([]::string)"
      unfolding decimal_value_def Let_def True by simp
    ultimately show ?thesis using that [of ?ip "[]"] ip by simp
  next
    case False
    then have hd: "hd ?r = CHR ''.''" using hd_dropWhile [of ?P t] by simp
    then have r': "?r = CHR ''.'' # tl ?r" using False by (metis list.collapse)
    have fp: "digit_string (tl ?r)" using r False by blast
    have t': "t = ?ip @ CHR ''.'' # tl ?r" using t r' by metis
    have ne: "t \<noteq> ?ip" using t False by (metis append_self_conv)
    have "decimal_value t = real (digits_val ?ip) + real (digits_val (tl ?r)) / 10 ^ length (tl ?r)"
      by (simp add: decimal_value_def Let_def)
    then show ?thesis using that [of ?ip "tl ?r"] ip fp t' ne by simp
  qed
qed

lemma digit_string_all: "digit_string s \<Longrightarrow> \<forall>c\<in>set s. is_digit c"
  by (simp add: digit_string_def list_all_iff)

lemma strip_float_id:
  assumes "s \<noteq> []" "\<not> is_float_space (hd s)" "\<not> is_float_space (last s)"
  shows "strip_float s = s"
proof -
  have "dropWhile is_float_space s = s"
    using assms by (simp add: dropWhile_eq_self_iff)
  moreover have "dropWhile is_float_space (rev s) = rev s"
    using assms by (simp add: dropWhile_eq_self_iff hd_rev)
  ultimately show ?thesis by (simp add: strip_float_def)
qed

lemma parse_number_digits:
  assumes "digit_string ip"
  shows "parse_number ip = Some (real (digits_val ip))"
proof -
  have 1: "takeWhile is_digit ip = ip" and 2: "dropWhile is_digit ip = []"
    using digit_string_all [OF assms] by simp_all
  have 3: "ip \<noteq> []" using assms by (simp add: digit_string_def)
  show ?thesis unfolding parse_number_def Let_def 1 2 using 3 by simp
qed

lemma parse_number_point:
  assumes "digit_string ip" "digit_string fp"
  shows "parse_number (ip @ CHR ''.'' # fp) =
           Some (real (digits_val ip) + real (digits_val fp) / 10 ^ length fp)"
proof -
  have ip: "\<forall>c\<in>set ip. is_digit c" and fp: "\<forall>c\<in>set fp. is_digit c"
    using assms digit_string_all by blast+
  have 1: "takeWhile is_digit (ip @ CHR ''.'' # fp) = ip"
    using ip by (simp add: takeWhile_tail not_digit_point)
  have 2: "dropWhile is_digit (ip @ CHR ''.'' # fp) = CHR ''.'' # fp"
    using ip by (simp add: dropWhile_append3 not_digit_point)
  have 3: "takeWhile is_digit fp = fp" "dropWhile is_digit fp = []"
    using fp by simp_all
  have "real (digits_val (ip @ fp)) / 10 ^ length fp = real (digits_val ip) + real (digits_val fp) / 10 ^ length fp"
    by (simp add: digits_val_append add_divide_distrib)
  then show ?thesis
    using assms by (simp add: parse_number_def 1 2 3 digit_string_def)
qed

lemma py_float_decimal:
  assumes "decimal_numeral t"
  shows "py_float t = Inr (round_double (decimal_value t))"
proof -
  obtain ip fp where ip: "digit_string ip"
    and t: "t = ip \<or> (digit_string fp \<and> t = ip @ CHR ''.'' # fp)"
    and v: "decimal_value t = real (digits_val ip) + real (digits_val (if t = ip then [] else fp)) / 10 ^ length (if t = ip then [] else fp)"
    using decimal_numeral_shape [OF assms] by blast
  have chars: "\<forall>c\<in>set t. is_digit c \<or> c = CHR ''.''"
    using ip t digit_string_all by auto
  have ne: "t \<noteq> []" and hd: "is_digit (hd t)" and last: "is_digit (last t)"
    using ip t digit_string_all [of ip] digit_string_all [of fp]
    by (auto simp: digit_string_def hd_append)
  have nus: "CHR ''_'' \<notin> set t" using chars is_digit_facts by auto
  then have filt: "filter (\<lambda>c. c \<noteq> CHR ''_'') t = t"
    by (auto simp: filter_id_conv)
  have us: "underscores_ok (CHR 0x00) t" using nus by (simp add: underscores_ok_none)
  have strip: "strip_float t = t"
    using ne hd last is_digit_facts by (simp add: strip_float_id)
  have sign: "parse_sign t = (False, t)"
    using ne hd is_digit_facts [of "hd t"] by (cases t) (auto simp: parse_sign_def)
  have "hd (map lower_char t) = hd t" using ne hd is_digit_facts by (simp add: hd_map)
  then have "map lower_char t \<noteq> ''inf''" "map lower_char t \<noteq> ''infinity''" "map lower_char t \<noteq> ''nan''"
    using hd is_digit_facts [of "hd t"] by auto
  then have inf: "parse_inf_or_nan t = None" by (simp add: parse_inf_or_nan_def)
  have num: "parse_number t = Some (decimal_value t)"
  proof (cases "t = ip")
    case True
    then show ?thesis using parse_number_digits [OF ip] v by (simp add: digits_val_def)
  next
    case False
    then have "digit_string fp" "t = ip @ CHR ''.'' # fp" using t by auto
    then show ?thesis using parse_number_point [OF ip, of fp] v False by simp
  qed
  show ?thesis by (simp add: py_float_def us filt strip sign inf num)
qed

lemma decimal_numeral_not_alpha: "decimal_numeral t \<Longrightarrow> \<not> isalpha t"
proof -
  assume "decimal_numeral t"
  then have "takeWhile (\<lambda>c. c \<noteq> CHR ''.'') t \<noteq> []" "is_digit (hd (takeWhile (\<lambda>c. c \<noteq> CHR ''.'') t))"
    by (auto simp: decimal_numeral_def Let_def digit_string_def list_all_iff)
  then have "t \<noteq> []" "is_digit (hd t)"
    by (cases t; auto split: if_splits)+
  then show ?thesis
    using is_digit_facts [of "hd t"] by (cases t) (auto simp: isalpha_def)
qed

lemma convert_part_single:
  "isalpha t \<Longrightarrow> length t = 1 \<Longrightarrow> convert_part t = Inr (round_double (real (code_point (hd t)) / 100))"
  by (cases t) (auto simp: convert_part_def py_ord_def)

lemma convert_part_long:
  "isalpha t \<Longrightarrow> length t \<noteq> 1 \<Longrightarrow> convert_part t = Inl TypeError"
  by (cases t; cases "tl t") (auto simp: convert_part_def py_ord_def isalpha_def)

lemma convert_part_other: "\<not> isalpha t \<Longrightarrow> convert_part t = py_float t"
  by (simp add: convert_part_def)

lemma py_float_error: "py_float t = Inl e \<Longrightarrow> e = ValueError"
  by (auto simp: py_float_def Let_def split: if_splits prod.splits option.splits)

lemma convert_part_error: "convert_part t = Inl e \<Longrightarrow> e = TypeError \<or> e = ValueError"
  by (cases "isalpha t"; cases "length t = 1")
     (auto simp: convert_part_single convert_part_long convert_part_other dest: py_float_error)

lemma convert_all_Inr_iff:
  "(\<exists>fs. convert_all ts = Inr fs) \<longleftrightarrow> (\<forall>t\<in>set ts. \<exists>f. convert_part t = Inr f)"
  by (induction ts) (auto split: sum.splits)

lemma convert_all_Inl: "convert_all ts = Inl e \<Longrightarrow> \<exists>t\<in>set ts. convert_part t = Inl e"
  by (induction ts) (auto split: sum.splits)

lemma convert_all_map:
  "\<forall>t\<in>set ts. convert_part t = Inr (g t) \<Longrightarrow> convert_all ts = Inr (map g ts)"
  by (induction ts) auto

lemma split_from_empty_iff: "split_from cur s = [] \<longleftrightarrow> cur = [] \<and> list_all is_space s"
  by (induction s arbitrary: cur) auto

lemma split_empty_iff: "split s = [] \<longleftrightarrow> list_all is_space s"
  by (simp add: split_def split_from_empty_iff)

lemma np_sum_value_Nil: "np_sum_value [] = FNum 0"
  by (simp add: np_sum_value_def add_reduce_def pairwise_sum.simps [of _ _ "[]"] round_double_def)

lemma fdiv_len_zero: "fdiv_len (FNum 0) 0 = FNaN"
  by (simp add: fdiv_len_def len_to_float_def round_double_def)

subsection \<open>The value returned\<close>

text \<open>
  Claim C1, as amended. When every token of \<open>s\<close> is a single alphabetic character or a
  decimal numeral, \<open>char_to_float s\<close> raises nothing and returns the mean, computed in
  float64 arithmetic, of the values of the tokens: the code point divided by 100
  (alphabetic token) and the numeric value (numeral). Each value is rounded to the
  nearest double, the doubles are added by the summation of numpy and the sum is divided
  by the number of tokens, every operation rounding; the mean of no token is the nan of
  the division 0.0 / 0.
\<close>

theorem char_to_float_mean:
  assumes "\<forall>t\<in>set (split s). (isalpha t \<and> length t = 1) \<or> decimal_numeral t"
  shows "char_to_float s = Inr (float_mean (map token_value (split s)))"
proof -
  have "\<forall>t\<in>set (split s). convert_part t = Inr (round_double (token_value t))"
  proof
    fix t assume "t \<in> set (split s)"
    then consider "isalpha t" "length t = 1" | "decimal_numeral t" using assms by blast
    then show "convert_part t = Inr (round_double (token_value t))"
    proof cases
      case 1
      then show ?thesis by (simp add: convert_part_single token_value_def)
    next
      case 2
      then show ?thesis
        using decimal_numeral_not_alpha [OF 2] py_float_decimal [OF 2]
        by (simp add: convert_part_other token_value_def)
    qed
  qed
  then have "convert_all (split s) = Inr (map (\<lambda>t. round_double (token_value t)) (split s))"
    by (rule convert_all_map)
  then show ?thesis
    by (simp add: char_to_float_convert_all float_mean_def comp_def)
qed

theorem char_to_float_mean_witness:
  "split ''P 21 21 21'' = [''P'', ''21'', ''21'', ''21''] \<and> isalpha ''P'' \<and> length ''P'' = 1 \<and>
   decimal_numeral ''21'' \<and> token_value ''P'' = 4 / 5 \<and> token_value ''21'' = 21 \<and>
   float_mean [4 / 5, 21, 21, 21] = FNum (4489525878534963 / 281474976710656) \<and>
   char_to_float ''P 21 21 21'' = Inr (FNum (4489525878534963 / 281474976710656))"
proof -
  have sp: "split ''P 21 21 21'' = [''P'', ''21'', ''21'', ''21'']" by code_simp
  have a: "isalpha ''P''" by code_simp
  have d: "decimal_numeral ''21''" by code_simp
  have h: "\<forall>t\<in>set (split ''P 21 21 21''). (isalpha t \<and> length t = 1) \<or> decimal_numeral t"
    using a d by (simp add: sp)
  have tv: "token_value ''P'' = 4 / 5" "token_value ''21'' = 21" by code_simp+
  have fm: "float_mean [4 / 5, 21, 21, 21] = FNum (4489525878534963 / 281474976710656)"
    by code_simp
  have "char_to_float ''P 21 21 21'' = Inr (float_mean [4 / 5, 21, 21, 21])"
    using char_to_float_mean [OF h] by (simp add: sp tv)
  then show ?thesis
    using sp a d tv fm by simp
qed

text \<open>
  Claim C1 as stated fails on an alphabetic token of more than one character: the only
  token of \<open>Pnma\<close> is alphabetic, and \<open>ord\<close> raises TypeError on it. And the value
  returned is the mean only up to rounding: for \<open>0.1 0.2\<close> it is the double
  0.15000000000000002, which is not the double nearest to the mean 3 / 20.
\<close>

theorem char_to_float_mean_counterexample:
  "split ''Pnma'' = [''Pnma''] \<and> isalpha ''Pnma'' \<and> char_to_float ''Pnma'' = Inl TypeError \<and>
   split ''0.1 0.2'' = [''0.1'', ''0.2''] \<and> decimal_numeral ''0.1'' \<and> decimal_numeral ''0.2'' \<and>
   (token_value ''0.1'' + token_value ''0.2'') / 2 = 3 / 20 \<and>
   char_to_float ''0.1 0.2'' = Inr (FNum (1351079888211149 / 9007199254740992)) \<and>
   round_double (3 / 20) = FNum (5404319552844595 / 36028797018963968)"
  by code_simp

lemma char_to_float_Inr_iff:
  "(\<exists>v. char_to_float s = Inr v) \<longleftrightarrow>
   (\<forall>t\<in>set (split s). (isalpha t \<and> length t = 1) \<or> (\<not> isalpha t \<and> (\<exists>f. py_float t = Inr f)))"
proof -
  have part: "(\<exists>f. convert_part t = Inr f) \<longleftrightarrow>
      (isalpha t \<and> length t = 1) \<or> (\<not> isalpha t \<and> (\<exists>f. py_float t = Inr f))" for t
    by (cases "isalpha t"; cases "length t = 1")
       (simp_all add: convert_part_single convert_part_long convert_part_other)
  have "(\<exists>v. char_to_float s = Inr v) \<longleftrightarrow> (\<exists>fs. convert_all (split s) = Inr fs)"
    by (simp add: char_to_float_convert_all split: sum.splits)
  then show ?thesis
    by (simp add: convert_all_Inr_iff part)
qed

lemma char_to_float_error:
  "char_to_float s = Inl e \<Longrightarrow> e = TypeError \<or> e = ValueError"
proof -
  assume "char_to_float s = Inl e"
  then have "convert_all (split s) = Inl e"
    by (simp add: char_to_float_convert_all split: sum.splits)
  then show ?thesis
    using convert_all_Inl convert_part_error by blast
qed

lemma char_to_float_raises:
  assumes "t \<in> set (split s)" "convert_part t = Inl e"
  shows "char_to_float s = Inl TypeError \<or> char_to_float s = Inl ValueError"
proof (cases "char_to_float s")
  case (Inl e')
  then show ?thesis using char_to_float_error by blast
next
  case (Inr v)
  then have "\<exists>fs. convert_all (split s) = Inr fs"
    by (simp add: char_to_float_convert_all split: sum.splits)
  then have "\<exists>f. convert_part t = Inr f"
    using assms(1) convert_all_Inr_iff by blast
  then show ?thesis using assms(2) by simp
qed

text \<open>
  Claim C8, as amended. \<open>char_to_float\<close> is partial. On the empty string and on a string
  of whitespace it raises nothing and returns nan. It raises on every input with an
  alphabetic token of more than one character, and on every input with a token that is
  neither alphabetic nor a float literal. It returns a value exactly when every token is
  a single alphabetic character, or is not alphabetic and is a float literal.
\<close>

theorem char_to_float_partial:
  "(list_all is_space s \<longrightarrow> char_to_float s = Inr FNaN) \<and>
   ((\<exists>t\<in>set (split s). isalpha t \<and> 1 < length t) \<longrightarrow>
      char_to_float s = Inl TypeError \<or> char_to_float s = Inl ValueError) \<and>
   ((\<exists>t\<in>set (split s). \<not> isalpha t \<and> py_float t = Inl ValueError) \<longrightarrow>
      char_to_float s = Inl TypeError \<or> char_to_float s = Inl ValueError) \<and>
   ((\<exists>v. char_to_float s = Inr v) \<longleftrightarrow>
      (\<forall>t\<in>set (split s). (isalpha t \<and> length t = 1) \<or>
                           (\<not> isalpha t \<and> (\<exists>f. py_float t = Inr f))))"
proof (intro conjI impI)
  assume "list_all is_space s"
  then have "split s = []" by (simp add: split_empty_iff)
  then show "char_to_float s = Inr FNaN"
    by (simp add: char_to_float_convert_all np_sum_value_Nil fdiv_len_zero)
next
  assume "\<exists>t\<in>set (split s). isalpha t \<and> 1 < length t"
  then obtain t where "t \<in> set (split s)" "isalpha t" "length t \<noteq> 1" by auto
  then show "char_to_float s = Inl TypeError \<or> char_to_float s = Inl ValueError"
    using char_to_float_raises convert_part_long by blast
next
  assume "\<exists>t\<in>set (split s). \<not> isalpha t \<and> py_float t = Inl ValueError"
  then obtain t where "t \<in> set (split s)" "convert_part t = Inl ValueError"
    by (auto simp: convert_part_other)
  then show "char_to_float s = Inl TypeError \<or> char_to_float s = Inl ValueError"
    using char_to_float_raises by blast
next
  show "(\<exists>v. char_to_float s = Inr v) \<longleftrightarrow>
      (\<forall>t\<in>set (split s). (isalpha t \<and> length t = 1) \<or>
                           (\<not> isalpha t \<and> (\<exists>f. py_float t = Inr f)))"
    by (rule char_to_float_Inr_iff)
qed

theorem char_to_float_partial_witness:
  "list_all is_space '' '' \<and> char_to_float '' '' = Inr FNaN \<and>
   isalpha ''Pnma'' \<and> (char_to_float ''Pnma'' = Inl TypeError \<or> char_to_float ''Pnma'' = Inl ValueError) \<and>
   \<not> isalpha ''21/c'' \<and> py_float ''21/c'' = Inl ValueError \<and>
   (char_to_float ''P 21/c'' = Inl TypeError \<or> char_to_float ''P 21/c'' = Inl ValueError) \<and>
   (\<exists>v. char_to_float ''P -1'' = Inr v)"
proof -
  have 1: "list_all is_space '' ''" by code_simp
  have 2: "split ''Pnma'' = [''Pnma'']" "isalpha ''Pnma''" by code_simp+
  have 3: "split ''P 21/c'' = [''P'', ''21/c'']" "\<not> isalpha ''21/c''" "py_float ''21/c'' = Inl ValueError"
    by code_simp+
  have 4: "split ''P -1'' = [''P'', ''-1'']" "isalpha ''P''" "\<not> isalpha ''-1''"
    "py_float ''-1'' = Inr (FNum (- 1))" by code_simp+
  have a: "char_to_float '' '' = Inr FNaN"
    using char_to_float_partial [of "'' ''"] 1 by blast
  have b: "char_to_float ''Pnma'' = Inl TypeError \<or> char_to_float ''Pnma'' = Inl ValueError"
    using char_to_float_partial [of "''Pnma''"] 2 by simp
  have c: "char_to_float ''P 21/c'' = Inl TypeError \<or> char_to_float ''P 21/c'' = Inl ValueError"
    using char_to_float_partial [of "''P 21/c''"] 3 by simp
  have d: "\<exists>v. char_to_float ''P -1'' = Inr v"
    using char_to_float_partial [of "''P -1''"] 4 by simp
  show ?thesis using 1 2 3 a b c d by blast
qed

text \<open>
  Claim C8 as stated fails on the empty string and on a string of blanks: the division by
  the token count 0 is a numpy scalar division, which returns nan.
\<close>

theorem char_to_float_empty_counterexample:
  "char_to_float [] = Inr FNaN \<and> char_to_float ''   '' = Inr FNaN"
  by code_simp

subsection \<open>The environment\<close>




section \<open>Properties of the feature extraction\<close>

lemma bindE_Inr [simp]: "bindE (Inr x) f = f x"
  by (simp add: bindE_def)

lemma bindE_Inl [simp]: "bindE (Inl e) f = Inl e"
  by (simp add: bindE_def)

lemma bindE_eq_Inr: "bindE m f = Inr y \<longleftrightarrow> (\<exists>x. m = Inr x \<and> f x = Inr y)"
  by (cases m) simp_all

lemma for_each_append:
  "for_each body (xs @ ys) st = bindE (for_each body xs st) (for_each body ys)"
  by (induction xs arbitrary: st) (auto split: sum.splits)

lemma for_each_invariant:
  assumes "for_each body xs st = Inr st'" and "P st"
    and "\<And>i s s'. i \<in> set xs \<Longrightarrow> P s \<Longrightarrow> body i s = Inr s' \<Longrightarrow> P s'"
  shows "P st'"
  using assms
proof (induction xs arbitrary: st)
  case Nil
  then show ?case by simp
next
  case (Cons i xs)
  from Cons.prems(1) obtain s1 where s1: "body i st = Inr s1" "for_each body xs s1 = Inr st'"
    by (auto split: sum.splits)
  have "P s1" using Cons.prems(3) [of i st s1] Cons.prems(2) s1(1) by simp
  moreover have "\<And>j s s'. j \<in> set xs \<Longrightarrow> P s \<Longrightarrow> body j s = Inr s' \<Longrightarrow> P s'"
    using Cons.prems(3) by (meson list.set_intros(2))
  ultimately show ?case using Cons.IH [OF s1(2)] by blast
qed

lemma set_row_widths:
  assumes "\<forall>r\<in>set arr. length r = m"
  shows "\<forall>r\<in>set (set_row i x arr). length r = m"
proof (cases "i < length arr")
  case True
  then have "length (map (\<lambda>_. x) (arr ! i)) = m" using assms by simp
  then show ?thesis
    using assms set_update_subset_insert [of arr i "map (\<lambda>_. x) (arr ! i)"]
    by (auto simp: set_row_def)
next
  case False
  then show ?thesis using assms by (simp add: set_row_def list_update_beyond)
qed

lemma set_item_widths:
  assumes "\<forall>r\<in>set arr. length r = m"
  shows "\<forall>r\<in>set (set_item i k x arr). length r = m"
proof (cases "i < length arr")
  case True
  then have "length ((arr ! i)[k := x]) = m" using assms by simp
  then show ?thesis
    using assms set_update_subset_insert [of arr i "(arr ! i)[k := x]"]
    by (auto simp: set_item_def)
next
  case False
  then show ?thesis using assms by (simp add: set_item_def list_update_beyond)
qed

lemma length_set_row [simp]: "length (set_row i x arr) = length arr"
  by (simp add: set_row_def)

lemma length_set_item [simp]: "length (set_item i k x arr) = length arr"
  by (simp add: set_item_def)

lemma assign_row_Inr:
  "assign_row i x arr = Inr A \<longleftrightarrow> i < length arr \<and> A = set_row i x arr"
  by (auto simp: assign_row_def)

lemma assign_item_Inr:
  "assign_item i k x arr = Inr A \<longleftrightarrow>
     i < length arr \<and> k < length (arr ! i) \<and> A = set_item i k x arr"
  by (auto simp: assign_item_def)

lemma select_rows_Inr:
  "select_rows arr idx = Inr R \<longleftrightarrow> (\<forall>j\<in>set idx. j < length arr) \<and> R = take_rows arr idx"
  by (auto simp: select_rows_def list_all_iff)

lemma take_rows_widths:
  assumes "\<forall>r\<in>set arr. length r = m" "\<forall>j\<in>set idx. j < length arr"
  shows "\<forall>r\<in>set (take_rows arr idx). length r = m"
  using assms by (auto simp: take_rows_def)

lemma problem1_body_Inr:
  assumes "problem1_body data i st = Inr st'"
  shows "st' = st \<or>
    (\<exists>a b. st' = st\<lparr>all_inputs := set_row i a (all_inputs st),
                    all_targets := set_row i b (all_targets st),
                    indices := indices st @ [i]\<rparr>)"
  using assms by (auto simp: problem1_body_def bindE_eq_Inr assign_row_Inr split: if_splits)

lemma store_item_Inr:
  "store_item i k v st = Inr st' \<longleftrightarrow>
     (\<exists>x. v = Inr x \<and> i < length (all_inputs st) \<and> k < length (all_inputs st ! i) \<and>
          st' = st\<lparr>all_inputs := set_item i k x (all_inputs st)\<rparr>)"
  by (auto simp: store_item_def bindE_eq_Inr assign_item_Inr)

lemma problem2_body_Inr:
  assumes "problem2_body data i st = Inr st'"
  shows "st' = st \<or>
    (\<exists>a0 a1 a2 a3 a4 a5 a6 a7 a8 b. mass_of data i a8 \<and>
       st' = st\<lparr>all_inputs := set_item i 8 a8 (set_item i 7 a7 (set_item i 6 a6 (set_item i 5 a5
                 (set_item i 4 a4 (set_item i 3 a3 (set_item i 2 a2 (set_item i 1 a1
                 (set_item i 0 a0 (all_inputs st))))))))),
              all_targets := set_row i b (all_targets st),
              indices := indices st @ [i]\<rparr>)"
proof -
  obtain d entry c where d: "getitem_index data i = Inr d" and e: "getitem_key d ''entry'' = Inr entry"
    and c: "problem2_cond entry = Inr c"
    using assms by (auto simp: problem2_body_def bindE_eq_Inr)
  show ?thesis
  proof (cases c)
    case False
    then show ?thesis using assms d e c by (simp add: problem2_body_def)
  next
    case True
    then have "\<exists>a0 a1 a2 a3 a4 a5 a6 a7 a8 b. protein_mass entry = Inr a8 \<and>
       st' = st\<lparr>all_inputs := set_item i 8 a8 (set_item i 7 a7 (set_item i 6 a6 (set_item i 5 a5
                 (set_item i 4 a4 (set_item i 3 a3 (set_item i 2 a2 (set_item i 1 a1
                 (set_item i 0 a0 (all_inputs st))))))))),
              all_targets := set_row i b (all_targets st),
              indices := indices st @ [i]\<rparr>"
      using assms d e c
      by (clarsimp simp: problem2_body_def bindE_eq_Inr store_item_Inr assign_row_Inr) blast
    then show ?thesis using d e by (auto simp: mass_of_def)
  qed
qed

lemma nth_set_item_neq: "j \<noteq> i \<Longrightarrow> set_item i k x arr ! j = arr ! j"
  by (simp add: set_item_def)

lemma nth_set_item_eq:
  "i < length arr \<Longrightarrow> k < length (arr ! i) \<Longrightarrow> set_item i k x arr ! i ! k = x"
  by (simp add: set_item_def)

lemma widths_inv_zeros:
  "widths_inv n m \<lparr>all_inputs = zeros n m, all_targets = zeros n 1, indices = []\<rparr>"
  by (simp add: widths_inv_def zeros_def)

lemma widths_inv_step:
  assumes "widths_inv n m st" "i < n" "length A = n" "\<forall>r\<in>set A. length r = m"
  shows "widths_inv n m (st\<lparr>all_inputs := A, all_targets := set_row i b (all_targets st),
           indices := indices st @ [i]\<rparr>)"
proof -
  have "\<forall>r\<in>set (set_row i b (all_targets st)). length r = 1"
    using assms(1) by (intro set_row_widths) (simp add: widths_inv_def)
  then show ?thesis
    using assms by (simp add: widths_inv_def less_Suc_eq)
qed

lemma widths_inv_problem1_body:
  assumes "widths_inv n 1 st" "i < n" "problem1_body data i st = Inr st'"
  shows "widths_inv n 1 st'"
proof -
  from problem1_body_Inr [OF assms(3)] show ?thesis
  proof
    assume "st' = st"
    then show ?thesis using assms(1) by simp
  next
    assume "\<exists>a b. st' = st\<lparr>all_inputs := set_row i a (all_inputs st),
                    all_targets := set_row i b (all_targets st),
                    indices := indices st @ [i]\<rparr>"
    then obtain a b where st': "st' = st\<lparr>all_inputs := set_row i a (all_inputs st),
        all_targets := set_row i b (all_targets st), indices := indices st @ [i]\<rparr>"
      by auto
    have "\<forall>r\<in>set (set_row i a (all_inputs st)). length r = 1"
      using assms(1) by (intro set_row_widths) (simp add: widths_inv_def)
    moreover have "length (set_row i a (all_inputs st)) = n"
      using assms(1) by (simp add: widths_inv_def)
    ultimately show ?thesis
      unfolding st' using widths_inv_step [OF assms(1,2)] by blast
  qed
qed

lemma problem2_body_effect:
  assumes "problem2_body data i st = Inr st'" and "\<forall>r\<in>set (all_inputs st). length r = m"
  shows "st' = st \<or>
    (\<exists>a8 b B. mass_of data i a8 \<and> length B = length (all_inputs st) \<and>
       (\<forall>r\<in>set B. length r = m) \<and>
       (\<forall>j. j \<noteq> i \<longrightarrow> B ! j = all_inputs st ! j) \<and>
       st' = st\<lparr>all_inputs := set_item i 8 a8 B,
              all_targets := set_row i b (all_targets st), indices := indices st @ [i]\<rparr>)"
proof -
  from problem2_body_Inr [OF assms(1)] show ?thesis
  proof
    assume "st' = st"
    then show ?thesis by simp
  next
    assume "\<exists>a0 a1 a2 a3 a4 a5 a6 a7 a8 b. mass_of data i a8 \<and>
       st' = st\<lparr>all_inputs := set_item i 8 a8 (set_item i 7 a7 (set_item i 6 a6 (set_item i 5 a5
                 (set_item i 4 a4 (set_item i 3 a3 (set_item i 2 a2 (set_item i 1 a1
                 (set_item i 0 a0 (all_inputs st))))))))),
              all_targets := set_row i b (all_targets st),
              indices := indices st @ [i]\<rparr>"
    then obtain a0 a1 a2 a3 a4 a5 a6 a7 a8 b where a8: "mass_of data i a8"
      and st': "st' = st\<lparr>all_inputs := set_item i 8 a8 (set_item i 7 a7 (set_item i 6 a6 (set_item i 5 a5
                 (set_item i 4 a4 (set_item i 3 a3 (set_item i 2 a2 (set_item i 1 a1
                 (set_item i 0 a0 (all_inputs st))))))))),
              all_targets := set_row i b (all_targets st),
              indices := indices st @ [i]\<rparr>" by blast
    let ?B = "set_item i 7 a7 (set_item i 6 a6 (set_item i 5 a5
                 (set_item i 4 a4 (set_item i 3 a3 (set_item i 2 a2 (set_item i 1 a1
                 (set_item i 0 a0 (all_inputs st))))))))"
    have 1: "length ?B = length (all_inputs st)" by simp
    have 2: "\<forall>r\<in>set ?B. length r = m"
      by (intro set_item_widths assms(2))
    have 3: "?B ! j = all_inputs st ! j" if "j \<noteq> i" for j
      using that by (simp add: nth_set_item_neq)
    have 5: "\<forall>j. j \<noteq> i \<longrightarrow> ?B ! j = all_inputs st ! j"
      using 3 by blast
    show ?thesis
      by (rule disjI2, rule exI [of _ a8], rule exI [of _ b], rule exI [of _ ?B])
         (intro conjI a8 1 2 5 st')
  qed
qed

lemma widths_inv_problem2_body:
  assumes "widths_inv n 9 st" "i < n" "problem2_body data i st = Inr st'"
  shows "widths_inv n 9 st'"
proof -
  have w9: "\<forall>r\<in>set (all_inputs st). length r = 9"
    using assms(1) by (simp add: widths_inv_def)
  from problem2_body_effect [OF assms(3) w9] show ?thesis
  proof
    assume "st' = st"
    then show ?thesis using assms(1) by simp
  next
    assume "\<exists>a8 b B. mass_of data i a8 \<and> length B = length (all_inputs st) \<and>
       (\<forall>r\<in>set B. length r = 9) \<and>
       (\<forall>j. j \<noteq> i \<longrightarrow> B ! j = all_inputs st ! j) \<and>
       st' = st\<lparr>all_inputs := set_item i 8 a8 B,
              all_targets := set_row i b (all_targets st), indices := indices st @ [i]\<rparr>"
    then obtain a8 b B where B: "length B = length (all_inputs st)" "\<forall>r\<in>set B. length r = 9"
      and st': "st' = st\<lparr>all_inputs := set_item i 8 a8 B,
              all_targets := set_row i b (all_targets st), indices := indices st @ [i]\<rparr>"
      by blast
    from B(2) have "\<forall>r\<in>set (set_item i 8 a8 B). length r = 9" by (rule set_item_widths)
    moreover have "length (set_item i 8 a8 B) = n" using B(1) assms(1) by (simp add: widths_inv_def)
    ultimately show ?thesis
      unfolding st' using widths_inv_step [OF assms(1,2)] by blast
  qed
qed

lemma problem1_result:
  assumes "problem1 data = Inr res"
  obtains n st where "py_len data = Inr n"
    "for_each (problem1_body data) [0..<n]
       \<lparr>all_inputs = zeros n 1, all_targets = zeros n 1, indices = []\<rparr> = Inr st"
    "res = \<lparr>all_inputs = take_rows (all_inputs st) (indices st),
            all_targets = take_rows (all_targets st) (indices st), indices = indices st\<rparr>"
  using assms by (auto simp: problem1_def bindE_eq_Inr select_rows_Inr)

lemma problem2_result:
  assumes "problem2 data = Inr res"
  obtains n st where "py_len data = Inr n"
    "for_each (problem2_body data) [0..<n]
       \<lparr>all_inputs = zeros n 9, all_targets = zeros n 1, indices = []\<rparr> = Inr st"
    "res = \<lparr>all_inputs = take_rows (all_inputs st) (indices st),
            all_targets = take_rows (all_targets st) (indices st), indices = indices st\<rparr>"
  using assms by (auto simp: problem2_def bindE_eq_Inr select_rows_Inr)

lemma widths_inv_result:
  assumes "widths_inv n m st"
    and "res = \<lparr>all_inputs = take_rows (all_inputs st) (indices st),
            all_targets = take_rows (all_targets st) (indices st), indices = indices st\<rparr>"
  shows "(\<forall>row\<in>set (all_inputs res). length row = m) \<and>
         (\<forall>row\<in>set (all_targets res). length row = 1) \<and>
         length (all_inputs res) = length (indices res) \<and>
         length (all_targets res) = length (indices res)"
  using assms by (auto simp: widths_inv_def take_rows_def)

text \<open>
  Claim C5. The feature matrix that an extraction returns has exactly 1 column in
  Problem 1 and exactly 9 columns in Problem 2; the target has exactly one column in both
  problems, and one row for each retained entry, as the feature matrix has.
\<close>

theorem feature_matrix_widths:
  "(problem1 data = Inr r1 \<longrightarrow>
      (\<forall>row\<in>set (all_inputs r1). length row = 1) \<and>
      (\<forall>row\<in>set (all_targets r1). length row = 1) \<and>
      length (all_inputs r1) = length (indices r1) \<and>
      length (all_targets r1) = length (indices r1)) \<and>
   (problem2 data = Inr r2 \<longrightarrow>
      (\<forall>row\<in>set (all_inputs r2). length row = 9) \<and>
      (\<forall>row\<in>set (all_targets r2). length row = 1) \<and>
      length (all_inputs r2) = length (indices r2) \<and>
      length (all_targets r2) = length (indices r2))"
proof (intro conjI impI)
  assume "problem1 data = Inr r1"
  then obtain n st where loop: "for_each (problem1_body data) [0..<n]
       \<lparr>all_inputs = zeros n 1, all_targets = zeros n 1, indices = []\<rparr> = Inr st"
    and res: "r1 = \<lparr>all_inputs = take_rows (all_inputs st) (indices st),
            all_targets = take_rows (all_targets st) (indices st), indices = indices st\<rparr>"
    by (rule problem1_result)
  have "widths_inv n 1 st"
  proof (rule for_each_invariant [OF loop, of "widths_inv n 1"])
    show "widths_inv n 1 \<lparr>all_inputs = zeros n 1, all_targets = zeros n 1, indices = []\<rparr>"
      by (rule widths_inv_zeros)
  next
    fix i s s' assume "i \<in> set [0..<n]" "widths_inv n 1 s" "problem1_body data i s = Inr s'"
    then show "widths_inv n 1 s'" using widths_inv_problem1_body [of n s i data s'] by simp
  qed
  from widths_inv_result [OF this res]
  show "\<forall>row\<in>set (all_inputs r1). length row = 1"
    "\<forall>row\<in>set (all_targets r1). length row = 1"
    "length (all_inputs r1) = length (indices r1)"
    "length (all_targets r1) = length (indices r1)" by blast+
next
  assume "problem2 data = Inr r2"
  then obtain n st where loop: "for_each (problem2_body data) [0..<n]
       \<lparr>all_inputs = zeros n 9, all_targets = zeros n 1, indices = []\<rparr> = Inr st"
    and res: "r2 = \<lparr>all_inputs = take_rows (all_inputs st) (indices st),
            all_targets = take_rows (all_targets st) (indices st), indices = indices st\<rparr>"
    by (rule problem2_result)
  have "widths_inv n 9 st"
  proof (rule for_each_invariant [OF loop, of "widths_inv n 9"])
    show "widths_inv n 9 \<lparr>all_inputs = zeros n 9, all_targets = zeros n 1, indices = []\<rparr>"
      by (rule widths_inv_zeros)
  next
    fix i s s' assume "i \<in> set [0..<n]" "widths_inv n 9 s" "problem2_body data i s = Inr s'"
    then show "widths_inv n 9 s'" using widths_inv_problem2_body [of n s i data s'] by simp
  qed
  from widths_inv_result [OF this res]
  show "\<forall>row\<in>set (all_inputs r2). length row = 9"
    "\<forall>row\<in>set (all_targets r2). length row = 1"
    "length (all_inputs r2) = length (indices r2)"
    "length (all_targets r2) = length (indices r2)" by blast+
qed

lemma mass_inv_problem2_body:
  assumes "mass_inv data n st" "i < n" "problem2_body data i st = Inr st'"
  shows "mass_inv data n st'"
proof -
  have w: "widths_inv n 9 st" and m: "\<forall>j\<in>set (indices st). mass_of data j (all_inputs st ! j ! 8)"
    using assms(1) by (simp_all add: mass_inv_def)
  have w': "widths_inv n 9 st'" using widths_inv_problem2_body [OF w assms(2,3)] .
  have w9: "\<forall>r\<in>set (all_inputs st). length r = 9"
    using w by (simp add: widths_inv_def)
  from problem2_body_effect [OF assms(3) w9] show ?thesis
  proof
    assume "st' = st"
    then show ?thesis using assms(1) by simp
  next
    assume "\<exists>a8 b B. mass_of data i a8 \<and> length B = length (all_inputs st) \<and>
       (\<forall>r\<in>set B. length r = 9) \<and>
       (\<forall>j. j \<noteq> i \<longrightarrow> B ! j = all_inputs st ! j) \<and>
       st' = st\<lparr>all_inputs := set_item i 8 a8 B,
              all_targets := set_row i b (all_targets st), indices := indices st @ [i]\<rparr>"
    then obtain a8 b B where a8: "mass_of data i a8"
      and B1: "length B = length (all_inputs st)"
      and B: "\<forall>r\<in>set B. length r = 9"
      and B3: "\<forall>j. j \<noteq> i \<longrightarrow> B ! j = all_inputs st ! j"
      and st': "st' = st\<lparr>all_inputs := set_item i 8 a8 B,
              all_targets := set_row i b (all_targets st), indices := indices st @ [i]\<rparr>"
      by blast
    have iB: "i < length B" using B1 w assms(2) by (simp add: widths_inv_def)
    then have "length (B ! i) = 9" using B by simp
    then have new: "set_item i 8 a8 B ! i ! 8 = a8"
      using iB by (simp add: nth_set_item_eq)
    have old: "set_item i 8 a8 B ! j = all_inputs st ! j" if "j \<noteq> i" for j
      using that B3 by (simp add: nth_set_item_neq)
    have "\<forall>j\<in>set (indices st'). mass_of data j (all_inputs st' ! j ! 8)"
    proof
      fix j assume j: "j \<in> set (indices st')"
      show "mass_of data j (all_inputs st' ! j ! 8)"
      proof (cases "j = i")
        case True
        then show ?thesis using a8 new st' by simp
      next
        case False
        then have "j \<in> set (indices st)" using j st' by simp
        then show ?thesis using m old [OF False] st' by simp
      qed
    qed
    then show ?thesis using w' by (simp add: mass_inv_def)
  qed
qed

text \<open>
  Claim C10. For every entry retained in Problem 2, the ninth feature (column index 8)
  of its row is 110 times the length of the entry's \<open>pdbx_seq_one_letter_code\<close> string.
\<close>

theorem problem2_mass_feature:
  assumes "problem2 (JArr ds) = Inr res"
    and "j < length (indices res)"
    and "getitem_key (ds ! (indices res ! j)) ''entry'' = Inr entry"
    and "getitem_key entry ''pdbx_seq_one_letter_code'' = Inr (JStr s)"
  shows "all_inputs res ! j ! 8 = FNum (110 * real (length s))"
proof -
  obtain n st where n: "py_len (JArr ds) = Inr n"
    and loop: "for_each (problem2_body (JArr ds)) [0..<n]
       \<lparr>all_inputs = zeros n 9, all_targets = zeros n 1, indices = []\<rparr> = Inr st"
    and res: "res = \<lparr>all_inputs = take_rows (all_inputs st) (indices st),
            all_targets = take_rows (all_targets st) (indices st), indices = indices st\<rparr>"
    using problem2_result [OF assms(1)] by blast
  have n_eq: "n = length ds" using n by (simp add: py_len_def)
  have inv: "mass_inv (JArr ds) n st"
  proof (rule for_each_invariant [OF loop, of "mass_inv (JArr ds) n"])
    show "mass_inv (JArr ds) n \<lparr>all_inputs = zeros n 9, all_targets = zeros n 1, indices = []\<rparr>"
      using widths_inv_zeros [of n 9] by (simp add: mass_inv_def)
  next
    fix i s s'
    assume "i \<in> set [0..<n]" "mass_inv (JArr ds) n s" "problem2_body (JArr ds) i s = Inr s'"
    then show "mass_inv (JArr ds) n s'" using mass_inv_problem2_body [of "JArr ds" n s i s'] by simp
  qed
  let ?i = "indices st ! j"
  have j: "j < length (indices st)" and i: "?i \<in> set (indices st)"
    using assms(2) res by simp_all
  then have "?i < length ds" and m: "mass_of (JArr ds) ?i (all_inputs st ! ?i ! 8)"
    using inv n_eq by (auto simp: mass_inv_def widths_inv_def)
  then have "protein_mass entry = Inr (all_inputs st ! ?i ! 8)"
    using assms(3) res by (auto simp: mass_of_def getitem_index_def)
  moreover have "protein_mass entry = Inr (FNum (110 * real (length s)))"
    using assms(4) by (simp add: protein_mass_def py_len_def)
  ultimately have "all_inputs st ! ?i ! 8 = FNum (110 * real (length s))"
    by simp
  then show ?thesis using res j by (simp add: take_rows_def)
qed

lemma int_to_float_value: "int_to_float n = Inr y \<Longrightarrow> y = round_double (of_int n)"
  by (cases "round_double (of_int n)") (simp_all add: int_to_float_def)

lemma number_value_np_row1: "number_value v = Some x \<Longrightarrow> np_row1 v = Inr x"
proof (cases v)
  case (JInt n)
  assume v: "number_value v = Some x"
  then have "\<bar>n\<bar> < 2 ^ 1024 - 2 ^ 970" and x: "x = round_double (of_int n)"
    using JInt by (simp_all add: number_value_def split: if_splits)
  then obtain y where "int_to_float n = Inr y" using int_to_float_Inr_iff by blast
  then show ?thesis using int_to_float_value [of n y] x JInt by simp
qed (simp_all add: number_value_def)

lemma problem1_body_well_formed:
  assumes "p1_well_formed d" "getitem_index data i = Inr d"
    and "i < length (all_inputs st)" "i < length (all_targets st)"
  shows "problem1_body data i st =
     Inr (if p1_retained d
          then st\<lparr>all_inputs := set_row i (density ''density_matthews'' d) (all_inputs st),
                  all_targets := set_row i (density ''density_percent_sol'' d) (all_targets st),
                  indices := indices st @ [i]\<rparr>
          else st)"
proof -
  obtain kvs en where d: "d = JObj kvs" "map_of kvs ''entry'' = Some (JObj en)"
    using assms(1)
    by (auto simp: p1_well_formed_def entry_of_def split: json.splits option.splits)
  have en: "entry_of d = Some en" using d by (simp add: entry_of_def)
  have entry: "getitem_key d ''entry'' = Inr (JObj en)" using d by (simp add: getitem_key_def)
  show ?thesis
  proof (cases "map_of en ''exptl_crystal''")
    case None
    then have "problem1_cond (JObj en) = Inr False"
      by (simp add: problem1_cond_def contains_key_def)
    moreover have "\<not> p1_retained d" using None en by (simp add: p1_retained_def crystal_of_def)
    ultimately show ?thesis using assms(2) entry by (simp add: problem1_body_def)
  next
    case (Some xc)
    then obtain c cs where xc: "xc = JArr (JObj c # cs)" and c: "crystal_of en = Some c"
      and num: "number_field c ''density_matthews''" "number_field c ''density_percent_sol''"
      using assms(1) en
      by (auto simp: p1_well_formed_def crystal_of_def split: json.splits option.splits list.splits)
    have fc: "first_crystal (JObj en) = Inr (JObj c)"
      using Some xc by (simp add: first_crystal_def getitem_key_def getitem_index_def)
    have cond: "problem1_cond (JObj en) = Inr (p1_retained d)"
      using Some fc en c by (simp add: problem1_cond_def contains_key_def p1_retained_def)
    show ?thesis
    proof (cases "p1_retained d")
      case False
      then show ?thesis using assms(2) entry cond by (simp add: problem1_body_def)
    next
      case True
      then obtain vx vy x y where x: "map_of c ''density_matthews'' = Some vx" "number_value vx = Some x"
        and y: "map_of c ''density_percent_sol'' = Some vy" "number_value vy = Some y"
        using num en c
        by (auto simp: p1_retained_def number_field_def split: option.splits)
      have "density ''density_matthews'' d = x" "density ''density_percent_sol'' d = y"
        using en c x y by (simp_all add: density_def)
      moreover have "np_row1 vx = Inr x" "np_row1 vy = Inr y"
        using x(2) y(2) by (simp_all add: number_value_np_row1)
      ultimately show ?thesis
        using True assms(2,3,4) entry cond fc x(1) y(1)
        by (simp add: problem1_body_def getitem_key_def assign_row_def)
    qed
  qed
qed

lemma set_row_map_upt:
  assumes "k < n" "length (f k) = 1"
  shows "set_row k a (map f [0..<n]) = map (f(k := [a])) [0..<n]"
proof (rule nth_equalityI)
  show "length (set_row k a (map f [0..<n])) = length (map (f(k := [a])) [0..<n])" by simp
next
  fix i assume "i < length (set_row k a (map f [0..<n]))"
  then have i: "i < n" by simp
  obtain z where z: "f k = [z]" using assms(2) by (cases "f k") auto
  show "set_row k a (map f [0..<n]) ! i = map (f(k := [a])) [0..<n] ! i"
    using i assms(1) z by (cases "i = k") (simp_all add: set_row_def)
qed

lemma p1_state_step:
  assumes "k < length ds" "p1_well_formed (ds ! k)"
  shows "problem1_body (JArr ds) k (p1_state ds k) = Inr (p1_state ds (Suc k))"
proof -
  have idx: "getitem_index (JArr ds) k = Inr (ds ! k)"
    using assms(1) by (simp add: getitem_index_def)
  have len: "k < length (all_inputs (p1_state ds k))" "k < length (all_targets (p1_state ds k))"
    using assms(1) by (simp_all add: p1_state_def)
  note body = problem1_body_well_formed [OF assms(2) idx len]
  show ?thesis
  proof (cases "p1_retained (ds ! k)")
    case False
    have "p1_state ds (Suc k) = p1_state ds k"
      using False by (auto simp: p1_state_def less_Suc_eq)
    then show ?thesis
      using body False by simp
  next
    case True
    let ?f = "\<lambda>key i. if i < k \<and> p1_retained (ds ! i) then [density key (ds ! i)] else [FNum 0]"
    have upd: "set_row k (density key (ds ! k)) (map (?f key) [0..<length ds]) =
          map (\<lambda>i. if i < Suc k \<and> p1_retained (ds ! i) then [density key (ds ! i)] else [FNum 0]) [0..<length ds]"
      for key
    proof -
      have "set_row k (density key (ds ! k)) (map (?f key) [0..<length ds]) =
            map ((?f key)(k := [density key (ds ! k)])) [0..<length ds]"
        using assms(1) by (intro set_row_map_upt) simp_all
      also have "\<dots> = map (\<lambda>i. if i < Suc k \<and> p1_retained (ds ! i) then [density key (ds ! i)] else [FNum 0]) [0..<length ds]"
        using True by (auto simp: less_Suc_eq)
      finally show ?thesis .
    qed
    have "p1_state ds (Suc k) =
       (p1_state ds k)\<lparr>all_inputs := set_row k (density ''density_matthews'' (ds ! k)) (all_inputs (p1_state ds k)),
                  all_targets := set_row k (density ''density_percent_sol'' (ds ! k)) (all_targets (p1_state ds k)),
                  indices := indices (p1_state ds k) @ [k]\<rparr>"
      using True upd by (simp add: p1_state_def)
    then show ?thesis
      using body True by simp
  qed
qed

lemma p1_loop:
  assumes "\<forall>d\<in>set ds. p1_well_formed d" "k \<le> length ds"
  shows "for_each (problem1_body (JArr ds)) [0..<k] (p1_state ds 0) = Inr (p1_state ds k)"
  using assms(2)
proof (induction k)
  case 0
  then show ?case by simp
next
  case (Suc k)
  then have "p1_well_formed (ds ! k)" "k < length ds" using assms(1) by simp_all
  then show ?case
    using Suc p1_state_step [of k ds] by (simp add: for_each_append)
qed

text \<open>
  Claim C3, as amended. On a dataset of well-formed elements (each has an \<open>entry\<close>
  mapping; \<open>exptl_crystal\<close>, when present, is a list that is not empty and whose first
  element is a mapping; the two density fields of that element, when present, are numbers
  that a double can hold) the extraction of Problem 1 raises nothing and returns rows
  exactly for the indices \<open>i\<close>, in ascending order, of the elements whose \<open>entry\<close> mapping
  has the key \<open>exptl_crystal\<close> and whose first crystal has both density keys; the input
  row of such an element is its \<open>density_matthews\<close> value and the target row its
  \<open>density_percent_sol\<close> value, as floats.
\<close>

theorem problem1_rows:
  assumes "\<forall>d\<in>set ds. p1_well_formed d"
  shows "problem1 (JArr ds) =
     Inr \<lparr>all_inputs = map (\<lambda>i. [density ''density_matthews'' (ds ! i)])
                          (filter (\<lambda>i. p1_retained (ds ! i)) [0..<length ds]),
          all_targets = map (\<lambda>i. [density ''density_percent_sol'' (ds ! i)])
                          (filter (\<lambda>i. p1_retained (ds ! i)) [0..<length ds]),
          indices = filter (\<lambda>i. p1_retained (ds ! i)) [0..<length ds]\<rparr>"
proof -
  let ?n = "length ds"
  have init: "\<lparr>all_inputs = zeros ?n 1, all_targets = zeros ?n 1, indices = []\<rparr> = p1_state ds 0"
    by (simp add: p1_state_def zeros_def map_replicate_const)
  have loop: "for_each (problem1_body (JArr ds)) [0..<?n] (p1_state ds 0) = Inr (p1_state ds ?n)"
    using p1_loop [OF assms, of ?n] by simp
  have rows: "take_rows (map f [0..<?n]) (filter P [0..<?n]) = map f (filter P [0..<?n])" for f :: "nat \<Rightarrow> pyfloat list" and P
    by (simp add: take_rows_def)
  have a: "take_rows (all_inputs (p1_state ds ?n)) (indices (p1_state ds ?n)) =
        map (\<lambda>i. [density ''density_matthews'' (ds ! i)]) (filter (\<lambda>i. p1_retained (ds ! i)) [0..<?n])"
    by (simp add: p1_state_def rows)
  have b: "take_rows (all_targets (p1_state ds ?n)) (indices (p1_state ds ?n)) =
        map (\<lambda>i. [density ''density_percent_sol'' (ds ! i)]) (filter (\<lambda>i. p1_retained (ds ! i)) [0..<?n])"
    by (simp add: p1_state_def rows)
  have c: "indices (p1_state ds ?n) = filter (\<lambda>i. p1_retained (ds ! i)) [0..<?n]"
    by (simp add: p1_state_def)
  have len: "py_len (JArr ds) = Inr ?n" by (simp add: py_len_def)
  have sel: "select_rows (all_inputs (p1_state ds ?n)) (indices (p1_state ds ?n)) =
               Inr (take_rows (all_inputs (p1_state ds ?n)) (indices (p1_state ds ?n)))"
    "select_rows (all_targets (p1_state ds ?n)) (indices (p1_state ds ?n)) =
               Inr (take_rows (all_targets (p1_state ds ?n)) (indices (p1_state ds ?n)))"
    by (simp_all add: select_rows_def list_all_iff p1_state_def)
  have "problem1 (JArr ds) =
     Inr \<lparr>all_inputs = take_rows (all_inputs (p1_state ds ?n)) (indices (p1_state ds ?n)),
          all_targets = take_rows (all_targets (p1_state ds ?n)) (indices (p1_state ds ?n)),
          indices = indices (p1_state ds ?n)\<rparr>"
    by (simp only: problem1_def len bindE_Inr init loop sel)
  then show ?thesis by (simp only: a b) (simp only: c)
qed

lemma sample_problem1: "problem1 (JArr [sample_bare, sample_entry]) = Inr sample_result1"
  by code_simp

lemma sample_problem2: "problem2 (JArr [sample_bare, sample_entry]) = Inr sample_result2"
  by code_simp

text \<open>
  Claim C2 fails for Problem 2. Its loop tests \<open>cell\<close> and \<open>density_matthews\<close> only: an
  entry with a \<open>cell\<close> and no \<open>exptl_crystal\<close> raises KeyError in the test itself, where the
  loop of Problem 1 tests the key first and skips the entry; a retained entry without
  \<open>symmetry\<close> or without \<open>pdbx_seq_one_letter_code\<close> raises KeyError in the body.
\<close>

theorem problem2_missing_key_raises:
  "problem2 (JArr [sample_no_crystal]) = Inl KeyError \<and>
   problem2 (JArr [sample_no_symmetry]) = Inl KeyError \<and>
   problem2 (JArr [sample_no_sequence]) = Inl KeyError \<and>
   problem1 (JArr [sample_no_crystal]) = Inr \<lparr>all_inputs = [], all_targets = [], indices = []\<rparr>"
  by code_simp

theorem feature_matrix_widths_witness:
  "problem1 (JArr [sample_bare, sample_entry]) = Inr sample_result1 \<and>
   problem2 (JArr [sample_bare, sample_entry]) = Inr sample_result2 \<and>
   length (all_inputs sample_result1 ! 0) = 1 \<and> length (all_targets sample_result1 ! 0) = 1 \<and>
   length (all_inputs sample_result2 ! 0) = 9 \<and> length (all_targets sample_result2 ! 0) = 1"
  using feature_matrix_widths [of "JArr [sample_bare, sample_entry]" sample_result1 sample_result2]
    sample_problem1 sample_problem2
  by (simp add: sample_result1_def sample_result2_def)

theorem problem2_mass_feature_witness:
  "problem2 (JArr [sample_bare, sample_entry]) = Inr sample_result2 \<and>
   0 < length (indices sample_result2) \<and>
   getitem_key ([sample_bare, sample_entry] ! (indices sample_result2 ! 0)) ''entry'' =
     Inr (JObj [(''exptl_crystal'', sample_crystal), (''cell'', sample_cell),
                (''symmetry'', sample_symmetry), (''pdbx_seq_one_letter_code'', JStr ''MKV'')]) \<and>
   getitem_key (JObj [(''exptl_crystal'', sample_crystal), (''cell'', sample_cell),
                (''symmetry'', sample_symmetry), (''pdbx_seq_one_letter_code'', JStr ''MKV'')])
     ''pdbx_seq_one_letter_code'' = Inr (JStr ''MKV'') \<and>
   all_inputs sample_result2 ! 0 ! 8 = FNum 330"
proof -
  let ?en = "JObj [(''exptl_crystal'', sample_crystal), (''cell'', sample_cell),
                (''symmetry'', sample_symmetry), (''pdbx_seq_one_letter_code'', JStr ''MKV'')]"
  have 1: "0 < length (indices sample_result2)" by (simp add: sample_result2_def)
  have 2: "getitem_key ([sample_bare, sample_entry] ! (indices sample_result2 ! 0)) ''entry'' = Inr ?en"
    by (simp add: sample_result2_def sample_entry_def getitem_key_def)
  have 3: "getitem_key ?en ''pdbx_seq_one_letter_code'' = Inr (JStr ''MKV'')"
    by (simp add: getitem_key_def)
  show ?thesis
    using problem2_mass_feature [OF sample_problem2 1 2 3] sample_problem2 1 2 3 by simp
qed

theorem problem1_rows_witness:
  "p1_well_formed sample_bare \<and> p1_well_formed sample_entry \<and> \<not> p1_retained sample_bare \<and>
   p1_retained sample_entry \<and>
   problem1 (JArr [sample_bare, sample_entry]) =
     Inr \<lparr>all_inputs = [[FNum (5 / 2)]], all_targets = [[FNum 50]], indices = [1]\<rparr>"
proof -
  have wf: "p1_well_formed sample_bare" "p1_well_formed sample_entry" by code_simp+
  have r: "\<not> p1_retained sample_bare" "p1_retained sample_entry" by code_simp+
  have d: "density ''density_matthews'' sample_entry = FNum (5 / 2)"
    "density ''density_percent_sol'' sample_entry = FNum 50" by code_simp+
  have u: "[0..<2] = [0, 1]" by (simp add: upt_rec)
  have "\<forall>d\<in>set [sample_bare, sample_entry]. p1_well_formed d" using wf by simp
  from problem1_rows [OF this] show ?thesis
    using wf r d by (simp add: u)
qed

text \<open>
  Claim C3 as stated, for every dataset, fails: the loop tests the key \<open>exptl_crystal\<close>
  and then takes the first element of its list, so an entry whose list of crystals is
  empty raises IndexError, and no rows are returned, not even those of the complete
  entry before it.
\<close>

theorem problem1_rows_counterexample:
  "p1_retained sample_entry \<and> \<not> p1_retained sample_empty_crystal \<and>
   problem1 (JArr [sample_entry, sample_empty_crystal]) = Inl IndexError"
  by code_simp

section \<open>Properties of the loader\<close>

lemma load_lines_Inr_iff:
  "load_lines loads ls acc = Inr jsons \<longleftrightarrow>
     (\<exists>js. map loads ls = map Inr js \<and> jsons = acc @ js)"
proof (induction ls arbitrary: acc)
  case Nil
  then show ?case by auto
next
  case (Cons l ls)
  show ?case
  proof (cases "loads l")
    case (Inl e)
    then show ?thesis by (auto simp: map_eq_Cons_conv)
  next
    case (Inr j)
    have "load_lines loads (l # ls) acc = Inr jsons \<longleftrightarrow>
          (\<exists>js. map loads ls = map Inr js \<and> jsons = (acc @ [j]) @ js)"
      using Inr Cons.IH [of "acc @ [j]"] by simp
    also have "\<dots> \<longleftrightarrow> (\<exists>js. map loads (l # ls) = map Inr js \<and> jsons = acc @ js)"
    proof
      assume "\<exists>js. map loads ls = map Inr js \<and> jsons = (acc @ [j]) @ js"
      then obtain js where "map loads ls = map Inr js" "jsons = (acc @ [j]) @ js" by blast
      then have "map loads (l # ls) = map Inr (j # js) \<and> jsons = acc @ (j # js)"
        using Inr by simp
      then show "\<exists>js. map loads (l # ls) = map Inr js \<and> jsons = acc @ js" by blast
    next
      assume "\<exists>js. map loads (l # ls) = map Inr js \<and> jsons = acc @ js"
      then obtain js where js: "map loads (l # ls) = map Inr js" "jsons = acc @ js" by blast
      then obtain j' js' where "js = j' # js'" by (cases js) auto
      then have "map loads ls = map Inr js' \<and> jsons = (acc @ [j]) @ js'"
        using js Inr by simp
      then show "\<exists>js. map loads ls = map Inr js \<and> jsons = (acc @ [j]) @ js" by blast
    qed
    finally show ?thesis .
  qed
qed

lemma load_jsons_Inr_iff:
  "load_jsons loads content = Inr jsons \<longleftrightarrow> map loads (file_lines content) = map Inr jsons"
  by (simp add: load_jsons_def load_lines_Inr_iff)

lemma load_data_Inr_iff:
  "load_data loads content = Inr data \<longleftrightarrow>
     (\<exists>rest. map loads (file_lines content) = map Inr (data # rest))"
proof -
  have fj: "first_json jsons = Inr data \<longleftrightarrow> (\<exists>rest. jsons = data # rest)" for jsons
    by (cases jsons) (auto simp: first_json_def)
  have "load_data loads content = Inr data \<longleftrightarrow>
     (\<exists>jsons. map loads (file_lines content) = map Inr jsons \<and> (\<exists>rest. jsons = data # rest))"
    by (simp add: load_data_def bindE_eq_Inr load_jsons_Inr_iff fj)
  then show ?thesis by blast
qed

text \<open>
  Claim C6. The loader parses every line of the file as one JSON value: it returns the
  list of the parsed lines exactly when every line parses. The variable \<open>data\<close> is the
  value parsed from the first line, and the extraction of both problems works on that
  value only.
\<close>

theorem loader_first_line:
  "(load_jsons loads content = Inr jsons \<longleftrightarrow>
      map loads (file_lines content) = map Inr jsons) \<and>
   (load_data loads content = Inr data \<longleftrightarrow>
      (\<exists>rest. map loads (file_lines content) = map Inr (data # rest))) \<and>
   (notebook_features loads content = Inr (r1, r2) \<longleftrightarrow>
      (\<exists>data rest. map loads (file_lines content) = map Inr (data # rest) \<and>
         problem1 data = Inr r1 \<and> problem2 data = Inr r2))"
proof (intro conjI)
  show "load_jsons loads content = Inr jsons \<longleftrightarrow> map loads (file_lines content) = map Inr jsons"
    by (rule load_jsons_Inr_iff)
  show "load_data loads content = Inr data \<longleftrightarrow>
      (\<exists>rest. map loads (file_lines content) = map Inr (data # rest))"
    by (rule load_data_Inr_iff)
  show "notebook_features loads content = Inr (r1, r2) \<longleftrightarrow>
      (\<exists>data rest. map loads (file_lines content) = map Inr (data # rest) \<and>
         problem1 data = Inr r1 \<and> problem2 data = Inr r2)"
    by (auto simp: notebook_features_def bindE_eq_Inr load_data_Inr_iff)
qed

theorem loader_first_line_witness:
  "map sample_loads (file_lines (''[]'' @ [CHR 0x0A] @ ''{}'')) = map Inr [JArr [], JObj []] \<and>
   load_jsons sample_loads (''[]'' @ [CHR 0x0A] @ ''{}'') = Inr [JArr [], JObj []] \<and>
   load_data sample_loads (''[]'' @ [CHR 0x0A] @ ''{}'') = Inr (JArr [])"
proof -
  have m: "map sample_loads (file_lines (''[]'' @ [CHR 0x0A] @ ''{}'')) = map Inr [JArr [], JObj []]"
    by code_simp
  note t = loader_first_line [of sample_loads "''[]'' @ [CHR 0x0A] @ ''{}''" "[JArr [], JObj []]" "JArr []"]
  have j: "load_jsons sample_loads (''[]'' @ [CHR 0x0A] @ ''{}'') = Inr [JArr [], JObj []]"
    using t m by blast
  have d: "load_data sample_loads (''[]'' @ [CHR 0x0A] @ ''{}'') = Inr (JArr [])"
    using t m by blast
  show ?thesis using m j d by (intro conjI)
qed

section \<open>Properties of the split\<close>

lemma permutation_facts:
  assumes "mset perm = mset [0..<n]"
  shows "distinct perm" "length perm = n" "set perm = {0..<n}"
proof -
  show "distinct perm" using mset_eq_imp_distinct_iff [OF assms] by simp
  show "length perm = n" using mset_eq_length [OF assms] by simp
  show "set perm = {0..<n}" using mset_eq_setD [OF assms] by simp
qed

lemma take_rows_permutation:
  assumes "mset perm = mset [0..<length arr]"
  shows "mset (take_rows arr perm) = mset arr"
proof -
  have "mset (take_rows arr perm) = image_mset ((!) arr) (mset perm)"
    by (simp add: take_rows_def)
  also have "\<dots> = mset (map ((!) arr) [0..<length arr])"
    using assms by simp
  also have "\<dots> = mset arr" by (simp add: map_nth)
  finally show ?thesis .
qed

text \<open>
  Claim C9. For a permutation \<open>perm\<close> of the indices of the retained rows, the two index
  lists are disjoint and together are a permutation of \<open>0..n-1\<close>; the training set has
  \<open>5 * n div 6\<close> rows and the test set the other \<open>n - 5 * n div 6\<close>; every index is in
  exactly one of the two lists, and the rows of the two sets together are the retained
  rows.
\<close>

theorem train_test_partition:
  assumes "mset perm = mset [0..<length arr]"
  shows "\<exists>training testing.
           train_test_split perm arr = Inr (training, testing) \<and>
           set (fst (split_indices perm (length arr))) \<inter>
             set (snd (split_indices perm (length arr))) = {} \<and>
           mset (fst (split_indices perm (length arr)) @ snd (split_indices perm (length arr))) =
             mset [0..<length arr] \<and>
           length training = 5 * length arr div 6 \<and>
           length testing = length arr - 5 * length arr div 6 \<and>
           (\<forall>r<length arr. (r \<in> set (fst (split_indices perm (length arr)))) \<noteq>
                             (r \<in> set (snd (split_indices perm (length arr))))) \<and>
           mset (training @ testing) = mset arr"
proof -
  let ?n = "length arr" and ?k = "5 * length arr div 6"
  let ?tr = "take ?k perm" and ?te = "drop ?k perm"
  have d: "distinct perm" and l: "length perm = ?n" and s: "set perm = {0..<?n}"
    using permutation_facts [OF assms] by blast+
  have k: "?k \<le> ?n" by simp
  have "distinct (?tr @ ?te)" using d by (simp only: append_take_drop_id)
  then have disj: "set ?tr \<inter> set ?te = {}" using distinct_append [of ?tr ?te] by blast
  have "set (?tr @ ?te) = {0..<?n}" using s by (simp only: append_take_drop_id)
  then have un: "set ?tr \<union> set ?te = {0..<?n}" by (simp only: set_append)
  have "map ((!) arr) ?tr @ map ((!) arr) ?te = map ((!) arr) (?tr @ ?te)"
    by (rule map_append [symmetric])
  then have rows: "take_rows arr ?tr @ take_rows arr ?te = take_rows arr perm"
    by (simp only: take_rows_def append_take_drop_id)
  have 1: "\<forall>r<?n. (r \<in> set ?tr) \<noteq> (r \<in> set ?te)"
    using disj un by auto
  have 2: "length (take_rows arr ?tr) = ?k" using l k by (simp add: take_rows_def)
  have 3: "length (take_rows arr ?te) = ?n - ?k" using l by (simp add: take_rows_def)
  have 4: "mset (take_rows arr ?tr @ take_rows arr ?te) = mset arr"
    using take_rows_permutation [OF assms] by (simp only: rows)
  have 5: "mset (?tr @ ?te) = mset [0..<?n]" using assms by (simp only: append_take_drop_id)
  have sp: "fst (split_indices perm ?n) = ?tr" "snd (split_indices perm ?n) = ?te"
    by (simp_all add: split_indices_def)
  have "\<forall>j\<in>set ?tr. j < ?n" "\<forall>j\<in>set ?te. j < ?n" using un by auto
  then have sel: "select_rows arr ?tr = Inr (take_rows arr ?tr)"
    "select_rows arr ?te = Inr (take_rows arr ?te)"
    by (simp_all add: select_rows_def list_all_iff)
  have tt: "train_test_split perm arr = Inr (take_rows arr ?tr, take_rows arr ?te)"
    by (simp add: train_test_split_def split_indices_def sel)
  show ?thesis
    unfolding sp
    by (rule exI [of _ "take_rows arr ?tr"], rule exI [of _ "take_rows arr ?te"])
       (intro conjI tt disj 1 2 3 4 5)
qed

theorem train_test_partition_witness:
  "mset [3, 0, 5, 1, 6, 2, 4] = mset [0..<length (replicate 7 [FNum 0])] \<and>
   split_indices [3, 0, 5, 1, 6, 2, 4] 7 = ([3, 0, 5, 1, 6], [2, 4]) \<and>
   train_test_split [3, 0, 5, 1, 6, 2, 4] (replicate 7 [FNum 0]) =
     Inr (replicate 5 [FNum 0], replicate 2 [FNum 0])"
proof -
  have u: "[0..<7] = [0, 1, 2, 3, 4, 5, 6::nat]" by code_simp
  have "mset [3, 0, 5, 1, 6, 2, 4] = mset [0, 1, 2, 3, 4, 5, 6::nat]" by simp
  then have h: "mset [3, 0, 5, 1, 6, 2, 4] = mset [0..<length (replicate 7 [FNum 0])]"
    by (simp only: u length_replicate)
  have s: "split_indices [3, 0, 5, 1, 6, 2, 4] 7 = ([3, 0, 5, 1, 6], [2, 4])"
    by (simp add: split_indices_def)
  have t: "train_test_split [3, 0, 5, 1, 6, 2, 4] (replicate 7 [FNum 0]) =
     Inr (replicate 5 [FNum 0], replicate 2 [FNum 0])"
    by code_simp
  from train_test_partition [OF h] obtain training testing
    where "train_test_split [3, 0, 5, 1, 6, 2, 4] (replicate 7 [FNum 0]) = Inr (training, testing)"
      and "length training = 5 * length (replicate 7 [FNum (0::real)]) div 6" by blast
  then show ?thesis
    using h s t by (intro conjI)
qed

section \<open>Properties of the training loop\<close>

declare data_loader.simps [simp del]

lemma concat_data_loader: "0 < bs \<Longrightarrow> concat (data_loader bs rows) = rows"
proof (induction bs rows rule: data_loader.induct)
  case (1 bs rows)
  show ?case
  proof (cases "rows = []")
    case True
    then show ?thesis by (simp add: data_loader.simps [of bs "[]"])
  next
    case False
    then show ?thesis using 1 by (simp add: data_loader.simps [of bs rows])
  qed
qed

lemma foldl_train_batch:
  "foldl (\<lambda>r b. train_batch T b r) r batches =
     r\<lparr>state := batches_state T batches (state r),
       epoch_loss := epoch_loss r + sum_list (batch_losses T batches (state r)),
       trace := trace r @ concat (replicate (length batches) batch_events)\<rparr>"
proof (induction batches arbitrary: r)
  case Nil
  then show ?case by simp
next
  case (Cons b bs)
  show ?case
    by (simp only: foldl_Cons Cons.IH)
       (simp add: train_batch_def Let_def batch_events_def add.assoc)
qed

lemma train_epoch_eq:
  "train_epoch T batches r =
     r\<lparr>state := scheduler_step T (batches_state T batches (state r)),
       epoch_loss := sum_list (batch_losses T batches (state r)),
       losses := losses r @ [sum_list (batch_losses T batches (state r))],
       trace := trace r @ epoch_events (length batches)\<rparr>"
  by (simp add: train_epoch_def foldl_train_batch Let_def epoch_events_def)

lemma train_epochs_eq:
  "state (train_epochs T batches n r) = epoch_start T batches n (state r) \<and>
   losses (train_epochs T batches n r) =
     losses r @ map (\<lambda>e. sum_list (batch_losses T batches (epoch_start T batches e (state r)))) [0..<n] \<and>
   trace (train_epochs T batches n r) =
     trace r @ concat (replicate n (epoch_events (length batches)))"
proof (induction n arbitrary: r)
  case 0
  then show ?case by simp
next
  case (Suc n)
  have up: "[0..<Suc n] = 0 # map Suc [0..<n]"
    by (simp add: upt_conv_Cons map_Suc_upt del: upt_Suc)
  show ?case
    unfolding train_epochs.simps up
    by (simp add: Suc.IH train_epoch_eq comp_def)
qed

text \<open>
  Claim C4. The training loop runs \<open>num_epochs = 1000\<close> epochs, none of them cut short.
  The minibatches of an epoch cover all rows; each minibatch is handled by the calls zero
  the gradients, forward pass, loss, backward pass, optimizer step, in this order; after
  the batches of an epoch one loss value, the sum of the losses of the batches of this
  epoch, is appended to \<open>losses\<close> and the scheduler steps once. So \<open>losses\<close> has
  \<open>num_epochs\<close> elements.
\<close>

theorem training_loop_structure:
  "num_epochs = 1000 \<and>
   concat (data_loader batch_size rows) = rows \<and>
   length (losses (train T rows s0)) = num_epochs \<and>
   losses (train T rows s0) =
     map (\<lambda>e. sum_list (batch_losses T (data_loader batch_size rows)
                           (epoch_start T (data_loader batch_size rows) e s0)))
         [0..<num_epochs] \<and>
   trace (train T rows s0) =
     concat (replicate num_epochs
       (concat (replicate (length (data_loader batch_size rows))
                  [ZeroGrad, Forward, Criterion, Backward, OptimizerStep])
        @ [LossAppend, SchedulerStep]))"
proof -
  let ?b = "data_loader batch_size rows"
  let ?r0 = "\<lparr>state = s0, epoch_loss = 0, losses = [], trace = []\<rparr>"
  note eq = train_epochs_eq [of T ?b num_epochs ?r0]
  have l: "losses (train T rows s0) =
     map (\<lambda>e. sum_list (batch_losses T ?b (epoch_start T ?b e s0))) [0..<num_epochs]"
    using eq by (simp add: train_def)
  have t: "trace (train T rows s0) = concat (replicate num_epochs (epoch_events (length ?b)))"
    using eq by (simp add: train_def)
  have c: "concat ?b = rows" by (rule concat_data_loader) (simp add: batch_size_def)
  have n: "length (losses (train T rows s0)) = num_epochs" by (simp add: l)
  show ?thesis
    using l t c n by (simp add: num_epochs_def epoch_events_def batch_events_def)
qed

end
